theory Spec2Isabelle
  imports Main "HOL-Library.Word"
begin

section \<open>Python values and exceptions\<close>

text \<open>
  The model covers \<^verbatim>\<open>download_media.py\<close>, \<^verbatim>\<open>send_video_note.py\<close>, and the file id
  construction of \<^verbatim>\<open>photo.py\<close> and \<^verbatim>\<open>sticker.py\<close>. Python integers are \<open>int\<close>, a
  \<^verbatim>\<open>bytes\<close> object is a list of 8-bit words, and every exception the code can raise is a
  value of \<open>py_exn\<close>; a function that may raise returns \<open>py_exn + 'a\<close>.
\<close>

type_synonym byte = "8 word"

text \<open>
  A Python \<^verbatim>\<open>str\<close> whose characters matter as code points (the thumbnail type) is the
  list of its code points; file names, MIME types and messages are HOL strings.
\<close>

type_synonym pystr = "int list"

definition is_pystr :: "pystr \<Rightarrow> bool" where
  "is_pystr s = list_all (\<lambda>c. 0 \<le> c \<and> c < 0x110000) s"

datatype py_exn =
    AssertionError
  | BinasciiError
  | StructError
  | IndexError
  | TypeError
  | KeyError
  | AttributeError
  | ValueError string
  | FileIdInvalid
  | FilePartMissing int
  | StopTransmission
  | OtherError string

section \<open>The \<^verbatim>\<open>struct\<close> module, little-endian standard sizes\<close>

text \<open>
  Only the format characters \<^verbatim>\<open>i\<close> (4 bytes, signed) and \<^verbatim>\<open>q\<close> (8 bytes, signed) occur,
  always after the prefix \<^verbatim>\<open><\<close>: little-endian, no padding.
\<close>

datatype fcode = Fi | Fq

fun fsize :: "fcode \<Rightarrow> nat" where
  "fsize Fi = 4"
| "fsize Fq = 8"

definition calcsize :: "fcode list \<Rightarrow> nat" where
  "calcsize fmt = sum_list (map fsize fmt)"

fun le_bytes :: "nat \<Rightarrow> int \<Rightarrow> byte list" where
  "le_bytes 0 v = []"
| "le_bytes (Suc n) v = word_of_int v # le_bytes n (v div 256)"

fun le_uint :: "byte list \<Rightarrow> int" where
  "le_uint [] = 0"
| "le_uint (b # bs) = uint b + 256 * le_uint bs"

definition le_sint :: "byte list \<Rightarrow> int" where
  "le_sint bs =
     (let u = le_uint bs
      in if 2 ^ (8 * length bs - 1) \<le> u then u - 2 ^ (8 * length bs) else u)"

definition in_range :: "fcode \<Rightarrow> int \<Rightarrow> bool" where
  "in_range c v \<longleftrightarrow> - (2 ^ (8 * fsize c - 1)) \<le> v \<and> v < 2 ^ (8 * fsize c - 1)"

fun unpack_fields :: "fcode list \<Rightarrow> byte list \<Rightarrow> int list" where
  "unpack_fields [] bs = []"
| "unpack_fields (c # cs) bs =
     le_sint (take (fsize c) bs) # unpack_fields cs (drop (fsize c) bs)"

text \<open>\<^verbatim>\<open>struct.unpack\<close> raises \<^verbatim>\<open>struct.error\<close> unless the buffer has exactly the size of
  the format.\<close>

definition struct_unpack :: "fcode list \<Rightarrow> byte list \<Rightarrow> py_exn + int list" where
  "struct_unpack fmt bs =
     (if length bs = calcsize fmt then Inr (unpack_fields fmt bs) else Inl StructError)"

fun pack_fields :: "fcode list \<Rightarrow> int list \<Rightarrow> byte list option" where
  "pack_fields [] [] = Some []"
| "pack_fields (c # cs) (v # vs) =
     (if in_range c v
      then (case pack_fields cs vs of None \<Rightarrow> None
            | Some bs \<Rightarrow> Some (le_bytes (fsize c) v @ bs))
      else None)"
| "pack_fields _ _ = None"

text \<open>\<^verbatim>\<open>struct.pack\<close> raises \<^verbatim>\<open>struct.error\<close> when the number of values differs from the
  format or a value does not fit its field.\<close>

definition struct_pack :: "fcode list \<Rightarrow> int list \<Rightarrow> py_exn + byte list" where
  "struct_pack fmt vs =
     (case pack_fields fmt vs of None \<Rightarrow> Inl StructError | Some bs \<Rightarrow> Inr bs)"

text \<open>The three formats of the file id layouts: \<^verbatim>\<open>"<iiqqqiiiqi"\<close>, \<^verbatim>\<open>"<iiqqqiiii"\<close> and
  \<^verbatim>\<open>"<iiqq"\<close>.\<close>

definition fmt_iiqqqiiiqi :: "fcode list" where
  "fmt_iiqqqiiiqi = [Fi, Fi, Fq, Fq, Fq, Fi, Fi, Fi, Fq, Fi]"

definition fmt_iiqqqiiii :: "fcode list" where
  "fmt_iiqqqiiii = [Fi, Fi, Fq, Fq, Fq, Fi, Fi, Fi, Fi]"

definition fmt_iiqq :: "fcode list" where
  "fmt_iiqq = [Fi, Fi, Fq, Fq]"

text \<open>\<^verbatim>\<open>chr\<close> raises \<^verbatim>\<open>ValueError\<close> outside \<^verbatim>\<open>range(0x110000)\<close>; \<^verbatim>\<open>ord\<close> raises
  \<^verbatim>\<open>TypeError\<close> unless its argument has exactly one character.\<close>

definition chr_msg :: string where
  "chr_msg = ''chr() arg not in range(0x110000)''"

definition py_chr :: "int \<Rightarrow> py_exn + pystr" where
  "py_chr i = (if 0 \<le> i \<and> i < 0x110000 then Inr [i] else Inl (ValueError chr_msg))"

fun py_ord :: "pystr \<Rightarrow> py_exn + int" where
  "py_ord [c] = Inr c"
| "py_ord _ = Inl TypeError"

section \<open>\<^verbatim>\<open>FileData\<close> and the decoding of a file id in \<^verbatim>\<open>download_media\<close>\<close>

text \<open>\<^verbatim>\<open>FileData\<close> (declared in \<^verbatim>\<open>pyrogram/client/ext\<close>): every attribute defaults to
  \<^verbatim>\<open>None\<close>.\<close>

record file_data =
  media_type :: "int option"
  dc_id :: "int option"
  document_id :: "int option"
  access_hash :: "int option"
  thumb_size :: "pystr option"
  peer_id :: "int option"
  peer_access_hash :: "int option"
  volume_id :: "int option"
  local_id :: "int option"
  is_big :: "bool option"
  file_size :: "int option"
  mime_type :: "string option"
  file_name :: "string option"
  date :: "int option"

text \<open>Lines 128--133: the record built from the attributes of the media object.\<close>

definition FileData_init ::
  "string option \<Rightarrow> int option \<Rightarrow> string option \<Rightarrow> int option \<Rightarrow> file_data" where
  "FileData_init media_file_name fsz mime dt =
     \<lparr>media_type = None, dc_id = None, document_id = None, access_hash = None,
      thumb_size = None, peer_id = None, peer_access_hash = None, volume_id = None,
      local_id = None, is_big = None, file_size = fsz, mime_type = mime,
      file_name = media_file_name, date = dt\<rparr>"

definition unknown_media_type_msg :: "string \<Rightarrow> string" where
  "unknown_media_type_msg file_id_str = ''Unknown media type: '' @ file_id_str"

definition unpack_mismatch :: py_exn where
  "unpack_mismatch = ValueError ''not enough values to unpack''"

text \<open>
  Lines 140--180, the body of the \<^verbatim>\<open>try\<close> after \<^verbatim>\<open>utils.decode\<close>. \<^verbatim>\<open>decoded[0]\<close> is the
  first byte of the decoded bytes (an \<^verbatim>\<open>IndexError\<close> when there is none), and the new
  \<^verbatim>\<open>FileData\<close> keeps the existing attributes of \<open>data\<close>, which is the record of
  \<open>FileData_init\<close>.
\<close>

definition parse_decoded :: "file_data \<Rightarrow> string \<Rightarrow> byte list \<Rightarrow> py_exn + file_data" where
  "parse_decoded data file_id_str decoded =
     (case decoded of
        [] \<Rightarrow> Inl IndexError
      | b # _ \<Rightarrow>
          let mt = uint b in
          if mt = 1 then
            (case struct_unpack fmt_iiqqqiiiqi decoded of
               Inl e \<Rightarrow> Inl e
             | Inr unpacked \<Rightarrow>
                 (case tl unpacked of
                    [dc, photo_id, u1, volume, size_type, peer, u2, peer_hash, loc] \<Rightarrow>
                      Inr (data\<lparr>media_type := Some mt, dc_id := Some dc,
                                peer_id := Some peer, peer_access_hash := Some peer_hash,
                                volume_id := Some volume, local_id := Some loc,
                                is_big := Some (size_type = 3)\<rparr>)
                  | _ \<Rightarrow> Inl unpack_mismatch))
          else if mt \<in> set [0, 2, 14] then
            (case struct_unpack fmt_iiqqqiiii decoded of
               Inl e \<Rightarrow> Inl e
             | Inr unpacked \<Rightarrow>
                 (case tl unpacked of
                    [dc, doc, hash, volume, u1, u2, thumb, loc] \<Rightarrow>
                      (case py_chr thumb of
                         Inl e \<Rightarrow> Inl e
                       | Inr t \<Rightarrow>
                           Inr (data\<lparr>media_type := Some mt, dc_id := Some dc,
                                     document_id := Some doc, access_hash := Some hash,
                                     thumb_size := Some t\<rparr>))
                  | _ \<Rightarrow> Inl unpack_mismatch))
          else if mt \<in> set [3, 4, 5, 8, 9, 10, 13] then
            (case struct_unpack fmt_iiqq decoded of
               Inl e \<Rightarrow> Inl e
             | Inr unpacked \<Rightarrow>
                 (case tl unpacked of
                    [dc, doc, hash] \<Rightarrow>
                      Inr (data\<lparr>media_type := Some mt, dc_id := Some dc,
                                document_id := Some doc, access_hash := Some hash\<rparr>)
                  | _ \<Rightarrow> Inl unpack_mismatch))
          else Inl (ValueError (unknown_media_type_msg file_id_str)))"

text \<open>Lines 181--182: \<^verbatim>\<open>except (AssertionError, binascii.Error, struct.error): raise
  FileIdInvalid\<close>. Every other exception leaves the function as it is.\<close>

definition translate_exn :: "py_exn \<Rightarrow> py_exn" where
  "translate_exn e =
     (if e = AssertionError \<or> e = BinasciiError \<or> e = StructError then FileIdInvalid else e)"

text \<open>
  Lines 138--182. \<^verbatim>\<open>utils.decode\<close> (in \<^verbatim>\<open>pyrogram/client/ext/utils.py\<close>) is a parameter:
  it maps the file id string to the decoded bytes or raises.
\<close>

definition decode_file_id ::
  "(string \<Rightarrow> py_exn + byte list) \<Rightarrow> file_data \<Rightarrow> string \<Rightarrow> py_exn + file_data" where
  "decode_file_id utils_decode data file_id_str =
     (case (case utils_decode file_id_str of
              Inl e \<Rightarrow> Inl e
            | Inr decoded \<Rightarrow> parse_decoded data file_id_str decoded) of
        Inl e \<Rightarrow> Inl (translate_exn e)
      | Inr d \<Rightarrow> Inr d)"

text \<open>The field of \<open>n\<close> bytes at byte offset \<open>off\<close> of a blob, as a signed little-endian
  integer.\<close>

definition field_at :: "nat \<Rightarrow> nat \<Rightarrow> byte list \<Rightarrow> int" where
  "field_at off n bs = le_sint (take n (drop off bs))"

text \<open>The format that lines 142--178 unpack for a first byte, and \<^verbatim>\<open>None\<close> for the
  values of the last \<^verbatim>\<open>else\<close>.\<close>

definition format_of_tag :: "int \<Rightarrow> fcode list option" where
  "format_of_tag t =
     (if t = 1 then Some fmt_iiqqqiiiqi
      else if t \<in> set [0, 2, 14] then Some fmt_iiqqqiiii
      else if t \<in> set [3, 4, 5, 8, 9, 10, 13] then Some fmt_iiqq
      else None)"

section \<open>File id construction in \<^verbatim>\<open>Photo._parse\<close> and \<^verbatim>\<open>Sticker._parse\<close>\<close>

text \<open>The parts of the raw API objects that reach the file id. \<^verbatim>\<open>utils.encode\<close> (in
  \<^verbatim>\<open>pyrogram/client/ext/utils.py\<close>) is a parameter, as \<^verbatim>\<open>utils.decode\<close> is.\<close>

record photo_size =
  ps_type :: pystr
  ps_volume_id :: int
  ps_local_id :: int

record raw_photo =
  p_dc_id :: int
  p_id :: int
  p_access_hash :: int
  p_sizes :: "photo_size list"

datatype tl_photo = Photo raw_photo | PhotoEmpty

text \<open>\<^verbatim>\<open>photo.py\<close>, lines 78--89: the \<^verbatim>\<open>file_id\<close> argument of the new \<^verbatim>\<open>Photo\<close>;
  \<^verbatim>\<open>None\<close> when the argument is not a \<^verbatim>\<open>types.Photo\<close>, and \<^verbatim>\<open>photo.sizes[-1]\<close> raises
  \<^verbatim>\<open>IndexError\<close> on an empty list.\<close>

definition Photo_parse_file_id ::
  "(byte list \<Rightarrow> py_exn + string) \<Rightarrow> tl_photo \<Rightarrow> py_exn + string option" where
  "Photo_parse_file_id uencode photo =
     (case photo of
        PhotoEmpty \<Rightarrow> Inr None
      | Photo p \<Rightarrow>
          if p_sizes p = [] then Inl IndexError
          else
            let big = last (p_sizes p) in
            (case py_ord (ps_type big) of
               Inl e \<Rightarrow> Inl e
             | Inr t \<Rightarrow>
                 (case struct_pack fmt_iiqqqiiii
                         [2, p_dc_id p, p_id p, p_access_hash p, ps_volume_id big, 1, 2, t,
                          ps_local_id big] of
                    Inl e \<Rightarrow> Inl e
                  | Inr packed \<Rightarrow>
                      (case uencode packed of Inl e \<Rightarrow> Inl e | Inr s \<Rightarrow> Inr (Some s)))))"

record raw_document =
  d_dc_id :: int
  d_id :: int
  d_access_hash :: int

text \<open>\<^verbatim>\<open>sticker.py\<close>, lines 127--135: the \<^verbatim>\<open>file_id\<close> argument of the new \<^verbatim>\<open>Sticker\<close>.\<close>

definition Sticker_parse_file_id ::
  "(byte list \<Rightarrow> py_exn + string) \<Rightarrow> raw_document \<Rightarrow> py_exn + string" where
  "Sticker_parse_file_id uencode sticker =
     (case struct_pack fmt_iiqq [8, d_dc_id sticker, d_id sticker, d_access_hash sticker] of
        Inl e \<Rightarrow> Inl e
      | Inr packed \<Rightarrow> uencode packed)"

subsection \<open>The encoders of the other tags\<close>

text \<open>
  Modelled from the spec: the encoders of the tags other than 2 and 8 (the \<^verbatim>\<open>_parse\<close>
  methods of the other media types, not among the sources). Sections 3 and 6 of the
  specification: each variant's fields are fixed-width little-endian integers at fixed
  byte offsets after a leading 32-bit tag. The offsets are those of the decoder's formats
  (a wire-compatibility requirement); \<open>PhotoLike\<close> carries the size-classification field
  as it is on the wire, and the fields of a layout that the decoder skips are given to the
  encoder beside the identifier.
\<close>

datatype media_identifier =
    PhotoLike int int int int int int
  | DocumentWithThumb int int int int pystr
  | DocumentPlain int int int int

fun pack_identifier :: "int list \<Rightarrow> media_identifier \<Rightarrow> py_exn + byte list" where
  "pack_identifier skipped (PhotoLike dc peer peer_hash volume loc size_type) =
     (case skipped of
        [photo_id, u1, u2] \<Rightarrow>
          struct_pack fmt_iiqqqiiiqi
            [1, dc, photo_id, u1, volume, size_type, peer, u2, peer_hash, loc]
      | _ \<Rightarrow> Inl TypeError)"
| "pack_identifier skipped (DocumentWithThumb tag dc doc hash thumb) =
     (case skipped of
        [volume, u1, u2, loc] \<Rightarrow>
          (case py_ord thumb of
             Inl e \<Rightarrow> Inl e
           | Inr t \<Rightarrow> struct_pack fmt_iiqqqiiii [tag, dc, doc, hash, volume, u1, u2, t, loc])
      | _ \<Rightarrow> Inl TypeError)"
| "pack_identifier skipped (DocumentPlain tag dc doc hash) =
     (case skipped of
        [] \<Rightarrow> struct_pack fmt_iiqq [tag, dc, doc, hash]
      | _ \<Rightarrow> Inl TypeError)"

text \<open>The tag of an identifier is one of its variant's tags, and its thumbnail code is a
  Python string.\<close>

fun supported :: "media_identifier \<Rightarrow> bool" where
  "supported (PhotoLike dc peer peer_hash volume loc size_type) = True"
| "supported (DocumentWithThumb tag dc doc hash thumb) =
     (tag \<in> set [0, 2, 14] \<and> is_pystr thumb)"
| "supported (DocumentPlain tag dc doc hash) = (tag \<in> set [3, 4, 5, 8, 9, 10, 13])"

text \<open>The record the decoder is to give back for an identifier: the fields it extracts,
  set on the \<open>data\<close> it started from.\<close>

fun extracted :: "file_data \<Rightarrow> media_identifier \<Rightarrow> file_data" where
  "extracted data (PhotoLike dc peer peer_hash volume loc size_type) =
     data\<lparr>media_type := Some 1, dc_id := Some dc, peer_id := Some peer,
          peer_access_hash := Some peer_hash, volume_id := Some volume,
          local_id := Some loc, is_big := Some (size_type = 3)\<rparr>"
| "extracted data (DocumentWithThumb tag dc doc hash thumb) =
     data\<lparr>media_type := Some tag, dc_id := Some dc, document_id := Some doc,
          access_hash := Some hash, thumb_size := Some thumb\<rparr>"
| "extracted data (DocumentPlain tag dc doc hash) =
     data\<lparr>media_type := Some tag, dc_id := Some dc, document_id := Some doc,
          access_hash := Some hash\<rparr>"

section \<open>\<^verbatim>\<open>download_media\<close>: naming, directory, queue\<close>

definition DEFAULT_DOWNLOAD_DIR :: string where
  "DEFAULT_DOWNLOAD_DIR = ''downloads/''"

definition error_message :: string where
  "error_message = ''This message doesn't contain any downloadable media''"

definition available_media :: "string list" where
  "available_media =
     [''audio'', ''document'', ''photo'', ''sticker'', ''animation'', ''video'', ''voice'',
      ''video_note'']"

text \<open>A media object, by the attributes \<^verbatim>\<open>download_media\<close> reads: \<open>m_file_name\<close> is the
  value of \<^verbatim>\<open>getattr(media, "file_name", "")\<close>, the others default to \<^verbatim>\<open>None\<close> or
  \<^verbatim>\<open>b""\<close>.\<close>

record media_obj =
  m_file_id :: string
  m_file_name :: "string option"
  m_file_size :: "int option"
  m_file_reference :: "byte list"
  m_mime_type :: "string option"
  m_date :: "int option"

text \<open>The argument \<^verbatim>\<open>message\<close>: a \<^verbatim>\<open>Message\<close> (given by \<^verbatim>\<open>getattr(message, kind, None)\<close>),
  a media object, or a file id string.\<close>

datatype dl_message =
    Message "string \<Rightarrow> media_obj option"
  | Media media_obj
  | FileIdStr string

text \<open>Lines 108--114, the \<^verbatim>\<open>for\<close> with its \<^verbatim>\<open>else\<close>.\<close>

fun first_media :: "(string \<Rightarrow> media_obj option) \<Rightarrow> string list \<Rightarrow> media_obj option" where
  "first_media msg [] = None"
| "first_media msg (kind # kinds) =
     (case msg kind of Some m \<Rightarrow> Some m | None \<Rightarrow> first_media msg kinds)"

text \<open>The item put on the download queue (the event, the progress callback and the
  \<^verbatim>\<open>path\<close> cell are left out).\<close>

record job =
  j_data :: file_data
  j_directory :: string
  j_file_name :: string
  j_file_reference :: "byte list"

text \<open>\<^verbatim>\<open>data.date or time.time()\<close>, the argument of \<^verbatim>\<open>datetime.fromtimestamp\<close>: \<^verbatim>\<open>None\<close>
  and 0 are false.\<close>

datatype timestamp = FromDate int | TimeNow

definition date_or_now :: "int option \<Rightarrow> timestamp" where
  "date_or_now d = (case d of None \<Rightarrow> TimeNow | Some t \<Rightarrow> if t = 0 then TimeNow else FromDate t)"

text \<open>
  What \<^verbatim>\<open>download_media\<close> uses of the client and of the libraries: \<open>path_join a b\<close> is
  \<^verbatim>\<open>str(a / b)\<close> of \<^verbatim>\<open>pathlib\<close>, \<open>strftime t\<close> is
  \<^verbatim>\<open>datetime.fromtimestamp(t).strftime("%Y-%m-%d_%H-%M-%S")\<close>, \<open>rnd_id\<close> is the value
  \<^verbatim>\<open>self.rnd_id()\<close> returns, and \<open>worker j\<close> is what the download worker has stored in
  \<^verbatim>\<open>path[0]\<close> when it sets the event of job \<open>j\<close>.
\<close>

record client =
  utils_decode :: "string \<Rightarrow> py_exn + byte list"
  PARENT_DIR :: string
  path_join :: "string \<Rightarrow> string \<Rightarrow> string"
  MEDIA_TYPE_ID :: "int \<Rightarrow> string option"
  guess_extension :: "string option \<Rightarrow> string option"
  rnd_id :: int
  strftime :: "timestamp \<Rightarrow> string"
  worker :: "job \<Rightarrow> string option"

text \<open>\<^verbatim>\<open>os.path.split\<close> and \<^verbatim>\<open>os.path.isabs\<close> of \<^verbatim>\<open>posixpath\<close>.\<close>

definition is_sep :: "char \<Rightarrow> bool" where
  "is_sep c \<longleftrightarrow> c = CHR ''/''"

definition os_path_split :: "string \<Rightarrow> string \<times> string" where
  "os_path_split p =
     (let head = rev (dropWhile (\<lambda>c. \<not> is_sep c) (rev p));
          tail = rev (takeWhile (\<lambda>c. \<not> is_sep c) (rev p))
      in (if head \<noteq> [] \<and> \<not> list_all is_sep head
          then rev (dropWhile is_sep (rev head)) else head,
          tail))"

definition os_path_isabs :: "string \<Rightarrow> bool" where
  "os_path_isabs s = (case s of [] \<Rightarrow> False | c # _ \<Rightarrow> is_sep c)"

text \<open>\<^verbatim>\<open>str\<close> of an integer.\<close>

fun str_nat :: "nat \<Rightarrow> string" where
  "str_nat n =
     (if n < 10 then [char_of (48 + n)]
      else str_nat (n div 10) @ [char_of (48 + n mod 10)])"

declare str_nat.simps [simp del]

definition str_int :: "int \<Rightarrow> string" where
  "str_int i = (if i < 0 then CHR ''-'' # str_nat (nat (- i)) else str_nat (nat i))"

text \<open>\<^verbatim>\<open>guessed_extension or default\<close>: \<^verbatim>\<open>None\<close> and the empty string are false.\<close>

definition or_default :: "string option \<Rightarrow> string \<Rightarrow> string" where
  "or_default guessed d = (case guessed of None \<Rightarrow> d | Some g \<Rightarrow> if g = [] then d else g)"

text \<open>Lines 198--211.\<close>

definition extension_of :: "int option \<Rightarrow> string option \<Rightarrow> string" where
  "extension_of mt guessed_extension =
     (if mt \<in> set (map Some [0, 1, 2, 14]) then ''.jpg''
      else if mt = Some 3 then or_default guessed_extension ''.ogg''
      else if mt \<in> set (map Some [4, 10, 13]) then or_default guessed_extension ''.mp4''
      else if mt = Some 5 then or_default guessed_extension ''.zip''
      else if mt = Some 8 then or_default guessed_extension ''.webp''
      else if mt = Some 9 then or_default guessed_extension ''.mp3''
      else ''.unknown'')"

text \<open>Lines 213--218.\<close>

definition synthesized_name :: "client \<Rightarrow> file_data \<Rightarrow> string \<Rightarrow> string" where
  "synthesized_name self data media_type_str =
     media_type_str @ ''_'' @
     strftime self (date_or_now (date data)) @ ''_'' @
     str_int (rnd_id self) @
     extension_of (media_type data) (guess_extension self (mime_type data))"

text \<open>Lines 187--188: the directory and the file name before a name is synthesized,
  \<^verbatim>\<open>file_name or data.file_name or ""\<close>.\<close>

definition split_file_name :: "file_data \<Rightarrow> string \<Rightarrow> string \<times> string" where
  "split_file_name data file_name_arg =
     (let (directory, tail) = os_path_split file_name_arg
      in (directory,
          if tail \<noteq> [] then tail
          else (case file_name data of None \<Rightarrow> [] | Some n \<Rightarrow> n)))"

text \<open>
  Lines 184--226. The result is the item put on the queue and the value returned. With
  \<open>block\<close> the caller waits for the worker and returns what it stored; without, the model
  returns the \<^verbatim>\<open>None\<close> that \<^verbatim>\<open>path\<close> starts with.
\<close>

definition enqueue_download ::
  "client \<Rightarrow> file_data \<Rightarrow> byte list \<Rightarrow> string \<Rightarrow> bool \<Rightarrow> py_exn + job \<times> string option" where
  "enqueue_download self data file_reference file_name_arg block =
     (let (dir0, name0) = split_file_name data file_name_arg;
          directory =
            (if \<not> os_path_isabs name0
             then path_join self (PARENT_DIR self)
                    (if dir0 \<noteq> [] then dir0 else DEFAULT_DOWNLOAD_DIR)
             else dir0)
      in (case (case media_type data of None \<Rightarrow> None | Some mt \<Rightarrow> MEDIA_TYPE_ID self mt) of
            None \<Rightarrow> Inl KeyError
          | Some media_type_str \<Rightarrow>
              let name1 = (if name0 = [] then synthesized_name self data media_type_str
                           else name0);
                  j = \<lparr>j_data = data, j_directory = directory, j_file_name = name1,
                       j_file_reference = file_reference\<rparr>
              in Inr (j, if block then worker self j else None)))"

text \<open>Lines 98--226.\<close>

definition download_media ::
  "client \<Rightarrow> dl_message \<Rightarrow> string \<Rightarrow> bool \<Rightarrow> py_exn + job \<times> string option" where
  "download_media self message file_name_arg block =
     (case (case message of
              Message msg \<Rightarrow>
                (case first_media msg available_media of
                   None \<Rightarrow> Inl (ValueError error_message)
                 | Some m \<Rightarrow> Inr (Inr m))
            | Media m \<Rightarrow> Inr (Inr m)
            | FileIdStr s \<Rightarrow> Inr (Inl s)) of
        Inl e \<Rightarrow> Inl e
      | Inr media \<Rightarrow>
          let (file_id_str, data, file_reference) =
                (case media of
                   Inl s \<Rightarrow> (s, FileData_init None None None None, [])
                 | Inr m \<Rightarrow>
                     (m_file_id m,
                      FileData_init (m_file_name m) (m_file_size m) (m_mime_type m) (m_date m),
                      m_file_reference m))
          in (case decode_file_id (utils_decode self) data file_id_str of
                Inl e \<Rightarrow> Inl e
              | Inr data' \<Rightarrow>
                  enqueue_download self data' file_reference file_name_arg block))"

text \<open>
  Modelled from the spec: the download worker (in \<^verbatim>\<open>client.py\<close>, not among the sources).
  Section 4.2: a job ends in one of the terminal states completed, failed and cancelled,
  and the blocked caller then reads the result, a resolved local path, or absence on
  failure and cancellation.
\<close>

datatype job_outcome = Completed string | Failed | Cancelled

fun worker_result :: "job_outcome \<Rightarrow> string option" where
  "worker_result (Completed p) = Some p"
| "worker_result Failed = None"
| "worker_result Cancelled = None"

section \<open>\<^verbatim>\<open>send_video_note\<close>: the upload and its retry loop\<close>

datatype update =
    UpdateNewMessage int
  | UpdateNewChannelMessage int
  | UpdateNewScheduledMessage int
  | UpdateOther

record response =
  updates :: "update list"
  users :: "int list"
  chats :: "int list"

text \<open>The value of \<^verbatim>\<open>pyrogram.Message._parse(self, i.message, users, chats,
  is_scheduled=...)\<close>, by its arguments.\<close>

datatype message = ParsedMessage int "int list" "int list" bool

text \<open>Lines 162--172: the first update that carries a new message.\<close>

fun first_new_message :: "response \<Rightarrow> update list \<Rightarrow> message option" where
  "first_new_message r [] = None"
| "first_new_message r (i # rest) =
     (case i of
        UpdateNewMessage m \<Rightarrow> Some (ParsedMessage m (users r) (chats r) False)
      | UpdateNewChannelMessage m \<Rightarrow> Some (ParsedMessage m (users r) (chats r) False)
      | UpdateNewScheduledMessage m \<Rightarrow> Some (ParsedMessage m (users r) (chats r) True)
      | UpdateOther \<Rightarrow> first_new_message r rest)"

text \<open>
  The collaborators of one call of \<^verbatim>\<open>send_video_note\<close>, by the outcome of each of their
  calls: \<open>path_exists\<close> is \<^verbatim>\<open>os.path.exists(video_note)\<close>; \<open>save_thumb\<close> and \<open>save_video\<close>
  are the outcomes of the two \<^verbatim>\<open>save_file\<close> calls of lines 127 and 128 (the \<^verbatim>\<open>id\<close> of the
  returned file); \<open>input_media\<close> is the outcome of \<^verbatim>\<open>utils.get_input_media_from_file_id\<close>;
  \<open>send n\<close> is the outcome of the \<open>n\<close>-th \<^verbatim>\<open>self.send\<close> of the loop, counted from 0;
  \<open>save_part n x\<close> is the outcome of \<^verbatim>\<open>save_file(video_note, file_id=file.id, file_part=x)\<close>
  after the \<open>n\<close>-th send.
\<close>

record uploader =
  path_exists :: bool
  save_thumb :: "py_exn + int"
  save_video :: "py_exn + int"
  input_media :: "py_exn option"
  send :: "nat \<Rightarrow> py_exn + response"
  save_part :: "nat \<Rightarrow> int \<Rightarrow> py_exn option"

text \<open>The calls made, in order: \<open>SaveFile path file_id file_part\<close>, with \<^verbatim>\<open>file_id=None\<close>
  and \<^verbatim>\<open>file_part=0\<close> for the upload of a whole file.\<close>

datatype call =
    SaveFile string "int option" int
  | GetInputMedia string
  | Send

text \<open>
  Lines 145--172, \<^verbatim>\<open>while True\<close>. The loop has no bound of its own: \<open>fuel\<close> bounds the
  number of sends, and \<open>None\<close> says that the loop has not returned within it. \<open>file\<close> is
  \<^verbatim>\<open>None\<close> when nothing was uploaded, and then \<^verbatim>\<open>file.id\<close> raises.
\<close>

fun send_loop ::
  "uploader \<Rightarrow> string \<Rightarrow> int option \<Rightarrow> nat \<Rightarrow> nat \<Rightarrow> call list
     \<Rightarrow> (py_exn + message option) option \<times> call list" where
  "send_loop up video_note file 0 n calls = (None, calls)"
| "send_loop up video_note file (Suc fuel) n calls =
     (case send up n of
        Inl e \<Rightarrow>
          (case e of
             FilePartMissing x \<Rightarrow>
               (case file of
                  None \<Rightarrow> (Some (Inl AttributeError), calls @ [Send])
                | Some fid \<Rightarrow>
                    (case save_part up n x of
                       Some e' \<Rightarrow>
                         (Some (Inl e'), calls @ [Send, SaveFile video_note (Some fid) x])
                     | None \<Rightarrow>
                         send_loop up video_note file fuel (Suc n)
                           (calls @ [Send, SaveFile video_note (Some fid) x])))
           | _ \<Rightarrow> (Some (Inl e), calls @ [Send]))
      | Inr r \<Rightarrow>
          (case first_new_message r (updates r) of
             Some m \<Rightarrow> (Some (Inr (Some m)), calls @ [Send])
           | None \<Rightarrow> send_loop up video_note file fuel (Suc n) (calls @ [Send])))"

text \<open>Lines 126--143: the uploads before the loop. The result is \<^verbatim>\<open>file.id\<close>, or
  \<^verbatim>\<open>None\<close> when \<^verbatim>\<open>video_note\<close> is not a local path and \<^verbatim>\<open>file\<close> stays \<^verbatim>\<open>None\<close>.\<close>

definition upload_phase ::
  "uploader \<Rightarrow> string \<Rightarrow> string option \<Rightarrow> (py_exn + int option) \<times> call list" where
  "upload_phase up video_note thumb =
     (if path_exists up then
        (case (case thumb of
                 None \<Rightarrow> Inr []
               | Some t \<Rightarrow>
                   (case save_thumb up of
                      Inl e \<Rightarrow> Inl (e, [SaveFile t None 0])
                    | Inr tf \<Rightarrow> Inr [SaveFile t None 0])) of
           Inl (e, calls) \<Rightarrow> (Inl e, calls)
         | Inr calls \<Rightarrow>
             (case save_video up of
                Inl e \<Rightarrow> (Inl e, calls @ [SaveFile video_note None 0])
              | Inr fid \<Rightarrow> (Inr (Some fid), calls @ [SaveFile video_note None 0])))
      else
        (case input_media up of
           Some e \<Rightarrow> (Inl e, [GetInputMedia video_note])
         | None \<Rightarrow> (Inr None, [GetInputMedia video_note])))"

text \<open>Lines 126--172, the body of the outer \<^verbatim>\<open>try\<close>.\<close>

definition send_video_note_body ::
  "uploader \<Rightarrow> string \<Rightarrow> string option \<Rightarrow> nat
     \<Rightarrow> (py_exn + message option) option \<times> call list" where
  "send_video_note_body up video_note thumb fuel =
     (case upload_phase up video_note thumb of
        (Inl e, calls) \<Rightarrow> (Some (Inl e), calls)
      | (Inr file, calls) \<Rightarrow> send_loop up video_note file fuel 0 calls)"

text \<open>Lines 125--174: \<^verbatim>\<open>except BaseClient.StopTransmission: return None\<close>.\<close>

definition send_video_note ::
  "uploader \<Rightarrow> string \<Rightarrow> string option \<Rightarrow> nat
     \<Rightarrow> (py_exn + message option) option \<times> call list" where
  "send_video_note up video_note thumb fuel =
     (case send_video_note_body up video_note thumb fuel of
        (Some (Inl e), calls) \<Rightarrow>
          if e = StopTransmission then (Some (Inr None), calls) else (Some (Inl e), calls)
      | other \<Rightarrow> other)"

section \<open>Example inputs\<close>

text \<open>A framing layer that yields the same bytes for every file id string, and the
  \<^verbatim>\<open>FileData\<close> of a file id passed as a string.\<close>

definition framed :: "byte list \<Rightarrow> string \<Rightarrow> py_exn + byte list" where
  "framed blob s = Inr blob"

definition no_attributes :: file_data where
  "no_attributes = FileData_init None None None None"

text \<open>A framing layer that is its own inverse: a string of the characters with the
  codes of the bytes.\<close>

definition bytes_as_string :: "byte list \<Rightarrow> py_exn + string" where
  "bytes_as_string bs = Inr (map (\<lambda>b. char_of (unat b)) bs)"

definition string_as_bytes :: "string \<Rightarrow> py_exn + byte list" where
  "string_as_bytes s = Inr (map (\<lambda>c. of_nat (of_char c)) s)"

text \<open>A photo-like blob of 56 bytes with the size-classification field 3; a blob of 56
  bytes whose first four bytes are the 32-bit integer 257; a blob of 48 bytes with first
  byte 2 and the thumbnail field \<open>-1\<close>.\<close>

definition blob_big_photo :: "byte list" where
  "blob_big_photo = 1 # replicate 31 0 @ [3, 0, 0, 0] @ replicate 20 0"

definition blob_tag257 :: "byte list" where
  "blob_tag257 = [1, 1, 0, 0] @ replicate 52 0"

definition blob_thumb_negative :: "byte list" where
  "blob_thumb_negative = 2 # replicate 39 0 @ [255, 255, 255, 255] @ replicate 4 0"

text \<open>A raw document for \<^verbatim>\<open>Sticker._parse\<close> and a raw photo with two sizes for
  \<^verbatim>\<open>Photo._parse\<close>.\<close>

definition sticker_example :: raw_document where
  "sticker_example = \<lparr>d_dc_id = 4, d_id = 1234567890123, d_access_hash = - 5\<rparr>"

definition photo_example :: raw_photo where
  "photo_example =
     \<lparr>p_dc_id = 2, p_id = 5000000000, p_access_hash = - 77,
      p_sizes = [\<lparr>ps_type = [109], ps_volume_id = 1, ps_local_id = 2\<rparr>,
                 \<lparr>ps_type = [120], ps_volume_id = 300, ps_local_id = 4\<rparr>]\<rparr>"

text \<open>An upload whose first send reports part 3 missing and whose second send returns
  a new message; and the same upload stopped while the part is sent again.\<close>

definition uploader_example :: uploader where
  "uploader_example =
     \<lparr>path_exists = True, save_thumb = Inr 1, save_video = Inr 77, input_media = None,
      send = (\<lambda>n. if n = 0 then Inl (FilePartMissing 3)
                   else Inr \<lparr>updates = [UpdateOther, UpdateNewMessage 5], users = [10],
                             chats = [20]\<rparr>),
      save_part = (\<lambda>n x. None)\<rparr>"

definition uploader_cancelled :: uploader where
  "uploader_cancelled = uploader_example\<lparr>save_part := (\<lambda>n x. Some StopTransmission)\<rparr>"

text \<open>A client for the examples: the framing layer yields a plain-document blob of tag
  5, and the clock, the random id, the table of labels and the extension guess are fixed.
  A document that carries a file name, the same document without a name and with the
  date 0, and the jobs that \<^verbatim>\<open>download_media\<close> queues for them.\<close>

fun demo_strftime :: "timestamp \<Rightarrow> string" where
  "demo_strftime (FromDate d) = str_int d"
| "demo_strftime TimeNow = ''now''"

definition demo_path_join :: "string \<Rightarrow> string \<Rightarrow> string" where
  "demo_path_join a b = a @ ''/'' @ b"

definition demo_media_type_id :: "int \<Rightarrow> string option" where
  "demo_media_type_id t =
     (if t = 5 then Some ''document'' else if t = 2 then Some ''photo'' else None)"

definition demo_guess_extension :: "string option \<Rightarrow> string option" where
  "demo_guess_extension m = (if m = Some ''application/pdf'' then Some ''.pdf'' else None)"

definition blob_document :: "byte list" where
  "blob_document = [5, 0, 0, 0, 4, 0, 0, 0, 9, 0, 0, 0, 0, 0, 0, 0, 7, 0, 0, 0, 0, 0, 0, 0]"

definition demo_worker :: "job \<Rightarrow> string option" where
  "demo_worker j = Some (j_directory j @ ''/'' @ j_file_name j)"

definition demo_client :: client where
  "demo_client =
     \<lparr>utils_decode = framed blob_document, PARENT_DIR = ''/app'',
      path_join = demo_path_join, MEDIA_TYPE_ID = demo_media_type_id,
      guess_extension = demo_guess_extension, rnd_id = 42, strftime = demo_strftime,
      worker = demo_worker\<rparr>"

definition media_named :: media_obj where
  "media_named =
     \<lparr>m_file_id = ''id'', m_file_name = Some ''a.pdf'', m_file_size = None,
      m_file_reference = [], m_mime_type = Some ''application/pdf'', m_date = Some 1500000000\<rparr>"

definition media_dated_zero :: media_obj where
  "media_dated_zero = media_named\<lparr>m_file_name := Some [], m_date := Some 0\<rparr>"

definition data_named :: file_data where
  "data_named =
     \<lparr>media_type = Some 5, dc_id = Some 4, document_id = Some 9, access_hash = Some 7,
      thumb_size = None, peer_id = None, peer_access_hash = None, volume_id = None,
      local_id = None, is_big = None, file_size = None,
      mime_type = Some ''application/pdf'', file_name = Some ''a.pdf'',
      date = Some 1500000000\<rparr>"

definition job_dated_zero :: job where
  "job_dated_zero =
     \<lparr>j_data = data_named\<lparr>file_name := Some [], date := Some 0\<rparr>,
      j_directory = ''/app/downloads'', j_file_name = ''document_now_42.pdf'',
      j_file_reference = []\<rparr>"

definition job_clip :: job where
  "job_clip =
     \<lparr>j_data = data_named\<lparr>file_name := Some [], date := Some 0\<rparr>,
      j_directory = ''/app/videos'', j_file_name = ''clip'', j_file_reference = []\<rparr>"

section \<open>Properties of the decoder\<close>

lemma calcsize_formats:
  "calcsize fmt_iiqqqiiiqi = 56" "calcsize fmt_iiqqqiiii = 48" "calcsize fmt_iiqq = 24"
  by (simp_all add: calcsize_def fmt_iiqqqiiiqi_def fmt_iiqqqiiii_def fmt_iiqq_def)

lemma unpack_photo_like:
  "unpack_fields fmt_iiqqqiiiqi bs =
     [field_at 0 4 bs, field_at 4 4 bs, field_at 8 8 bs, field_at 16 8 bs,
      field_at 24 8 bs, field_at 32 4 bs, field_at 36 4 bs, field_at 40 4 bs,
      field_at 44 8 bs, field_at 52 4 bs]"
  by (simp add: fmt_iiqqqiiiqi_def field_at_def)

lemma unpack_with_thumb:
  "unpack_fields fmt_iiqqqiiii bs =
     [field_at 0 4 bs, field_at 4 4 bs, field_at 8 8 bs, field_at 16 8 bs,
      field_at 24 8 bs, field_at 32 4 bs, field_at 36 4 bs, field_at 40 4 bs,
      field_at 44 4 bs]"
  by (simp add: fmt_iiqqqiiii_def field_at_def)

lemma unpack_plain:
  "unpack_fields fmt_iiqq bs =
     [field_at 0 4 bs, field_at 4 4 bs, field_at 8 8 bs, field_at 16 8 bs]"
  by (simp add: fmt_iiqq_def field_at_def)

subsection \<open>\<^verbatim>\<open>struct.unpack\<close> inverts \<^verbatim>\<open>struct.pack\<close>\<close>

lemma length_le_bytes: "length (le_bytes n v) = n"
  by (induction n arbitrary: v) simp_all

lemma le_uint_le_bytes: "le_uint (le_bytes n v) = v mod 256 ^ n"
proof (induction n arbitrary: v)
  case 0
  show ?case by simp
next
  case (Suc n)
  have "uint (word_of_int v :: byte) = v mod 256"
    by (simp add: uint_word_of_int)
  then have "le_uint (le_bytes (Suc n) v) = v mod 256 + 256 * ((v div 256) mod 256 ^ n)"
    by (simp add: Suc.IH)
  also have "\<dots> = v mod (256 * 256 ^ n)"
    by (simp add: zmod_zmult2_eq)
  finally show ?case by simp
qed

lemma signed_wrap:
  fixes v h :: int
  assumes "- h \<le> v" "v < h"
  shows "(if h \<le> v mod (2 * h) then v mod (2 * h) - 2 * h else v mod (2 * h)) = v"
proof (cases "0 \<le> v")
  case True
  with assms have "v mod (2 * h) = v" by simp
  with assms show ?thesis by simp
next
  case False
  have "v mod (2 * h) = (v + 2 * h) mod (2 * h)" by simp
  also from False assms have "\<dots> = v + 2 * h"
    by (intro mod_pos_pos_trivial) simp_all
  finally show ?thesis using assms by simp
qed

lemma le_sint_le_bytes:
  assumes "in_range c v"
  shows "le_sint (le_bytes (fsize c) v) = v"
proof (cases c)
  case Fi
  with assms have r: "- 2147483648 \<le> v" "v < 2147483648"
    by (simp_all add: in_range_def)
  have "le_uint (le_bytes 4 v) = v mod 4294967296"
    using le_uint_le_bytes [of 4 v] by simp
  with signed_wrap [OF r] show ?thesis
    unfolding le_sint_def Let_def Fi
    by (simp add: length_le_bytes split: if_splits)
next
  case Fq
  with assms have r: "- 9223372036854775808 \<le> v" "v < 9223372036854775808"
    by (simp_all add: in_range_def)
  have "le_uint (le_bytes 8 v) = v mod 18446744073709551616"
    using le_uint_le_bytes [of 8 v] by simp
  with signed_wrap [OF r] show ?thesis
    unfolding le_sint_def Let_def Fq
    by (simp add: length_le_bytes split: if_splits)
qed

lemma pack_fields_length:
  "pack_fields fmt vs = Some bs \<Longrightarrow> length bs = calcsize fmt"
  by (induction fmt vs arbitrary: bs rule: pack_fields.induct)
     (auto simp: calcsize_def length_le_bytes split: if_splits option.splits)

lemma unpack_pack_fields:
  "pack_fields fmt vs = Some bs \<Longrightarrow> unpack_fields fmt bs = vs"
  by (induction fmt vs arbitrary: bs rule: pack_fields.induct)
     (auto simp: length_le_bytes le_sint_le_bytes split: if_splits option.splits)

lemma struct_unpack_pack:
  "struct_pack fmt vs = Inr bs \<Longrightarrow> struct_unpack fmt bs = Inr vs"
  by (auto simp: struct_pack_def struct_unpack_def pack_fields_length unpack_pack_fields
           split: option.splits)

subsection \<open>The branches of the decoder\<close>

lemma parse_photo_like:
  assumes "uint b = 1"
  shows "parse_decoded data s (b # bs) =
     (if length (b # bs) = 56
      then Inr (data\<lparr>media_type := Some 1, dc_id := Some (field_at 4 4 (b # bs)),
                     peer_id := Some (field_at 36 4 (b # bs)),
                     peer_access_hash := Some (field_at 44 8 (b # bs)),
                     volume_id := Some (field_at 24 8 (b # bs)),
                     local_id := Some (field_at 52 4 (b # bs)),
                     is_big := Some (field_at 32 4 (b # bs) = 3)\<rparr>)
      else Inl StructError)"
  using assms
  by (simp add: parse_decoded_def struct_unpack_def calcsize_formats unpack_photo_like)

lemma parse_with_thumb:
  assumes "uint b = 0 \<or> uint b = 2 \<or> uint b = 14"
  shows "parse_decoded data s (b # bs) =
     (if length (b # bs) = 48
      then (if 0 \<le> field_at 40 4 (b # bs) \<and> field_at 40 4 (b # bs) < 0x110000
            then Inr (data\<lparr>media_type := Some (uint b), dc_id := Some (field_at 4 4 (b # bs)),
                           document_id := Some (field_at 8 8 (b # bs)),
                           access_hash := Some (field_at 16 8 (b # bs)),
                           thumb_size := Some [field_at 40 4 (b # bs)]\<rparr>)
            else Inl (ValueError chr_msg))
      else Inl StructError)"
  using assms
  by (auto simp add: parse_decoded_def struct_unpack_def calcsize_formats unpack_with_thumb
        py_chr_def)

lemma parse_plain:
  assumes "uint b \<in> {3, 4, 5, 8, 9, 10, 13}"
  shows "parse_decoded data s (b # bs) =
     (if length (b # bs) = 24
      then Inr (data\<lparr>media_type := Some (uint b), dc_id := Some (field_at 4 4 (b # bs)),
                     document_id := Some (field_at 8 8 (b # bs)),
                     access_hash := Some (field_at 16 8 (b # bs))\<rparr>)
      else Inl StructError)"
  using assms
  by (auto simp add: parse_decoded_def struct_unpack_def calcsize_formats unpack_plain)

lemma parse_unknown:
  assumes "uint b \<notin> {0, 1, 2, 3, 4, 5, 8, 9, 10, 13, 14}"
  shows "parse_decoded data s (b # bs) = Inl (ValueError (unknown_media_type_msg s))"
  using assms
  by (simp add: parse_decoded_def)

lemma decode_file_id_framed:
  assumes "udecode s = Inr blob"
  shows "decode_file_id udecode data s =
     (case parse_decoded data s blob of Inl e \<Rightarrow> Inl (translate_exn e) | Inr d \<Rightarrow> Inr d)"
  using assms by (simp add: decode_file_id_def)

subsection \<open>The first byte and the 32-bit tag\<close>

lemma le_uint_bounds: "0 \<le> le_uint bs \<and> le_uint bs < 256 ^ length bs"
proof (induction bs)
  case Nil
  show ?case by simp
next
  case (Cons b bs)
  have "0 \<le> uint b" "uint b < 256"
    using uint_bounded [of b] by simp_all
  with Cons show ?case by simp
qed

lemma first_byte_is_tag:
  assumes "4 \<le> length (b # bs)" "0 \<le> field_at 0 4 (b # bs)" "field_at 0 4 (b # bs) < 256"
  shows "uint b = field_at 0 4 (b # bs)"
proof -
  let ?r = "le_uint (take 3 bs)"
  from assms(1) have len: "length (take 3 bs) = 3" by simp
  have rb: "0 \<le> ?r" "?r < 16777216"
    using le_uint_bounds [of "take 3 bs"] len by simp_all
  have bb: "0 \<le> uint b" "uint b < 256"
    using uint_bounded [of b] by simp_all
  have t: "take 4 (b # bs) = b # take 3 bs"
    by (simp add: take_Cons')
  have f: "field_at 0 4 (b # bs) =
      (if 2147483648 \<le> uint b + 256 * ?r then uint b + 256 * ?r - 4294967296
       else uint b + 256 * ?r)"
    using len by (simp add: field_at_def t le_sint_def Let_def del: take_Suc_Cons)
  show ?thesis
  proof (cases "2147483648 \<le> uint b + 256 * ?r")
    case True
    with f have "field_at 0 4 (b # bs) = uint b + 256 * ?r - 4294967296" by simp
    with assms(2) rb bb show ?thesis by linarith
  next
    case False
    with f have e: "field_at 0 4 (b # bs) = uint b + 256 * ?r" by simp
    with assms(3) rb bb have "?r = 0" by linarith
    with e show ?thesis by simp
  qed
qed

lemma format_of_tag_cases:
  assumes "format_of_tag t = Some fmt"
  shows "(t = 1 \<and> calcsize fmt = 56) \<or> (t \<in> {0, 2, 14} \<and> calcsize fmt = 48)
       \<or> (t \<in> {3, 4, 5, 8, 9, 10, 13} \<and> calcsize fmt = 24)"
  using assms by (auto simp add: format_of_tag_def calcsize_formats split: if_splits)

lemma wrong_length_invalid:
  assumes "udecode s = Inr (b # bs)" and "format_of_tag (uint b) = Some fmt"
    and "length (b # bs) \<noteq> calcsize fmt"
  shows "decode_file_id udecode data s = Inl FileIdInvalid"
proof -
  note d = decode_file_id_framed [where udecode = udecode and s = s, OF assms(1)]
  from format_of_tag_cases [OF assms(2)] consider
      "uint b = 1" "calcsize fmt = 56"
    | "uint b = 0 \<or> uint b = 2 \<or> uint b = 14" "calcsize fmt = 48"
    | "uint b \<in> {3, 4, 5, 8, 9, 10, 13}" "calcsize fmt = 24"
    by auto
  then show ?thesis
  proof cases
    case 1
    with assms(3) show ?thesis by (simp add: d parse_photo_like translate_exn_def)
  next
    case 2
    with assms(3) show ?thesis by (simp add: d parse_with_thumb translate_exn_def)
  next
    case 3
    with assms(3) show ?thesis by (simp add: d parse_plain translate_exn_def)
  qed
qed

section \<open>Claims about the decoder\<close>

text \<open>
  C6. For every photo-like blob (first byte 1), the decoder sets \<open>is_big\<close> to true exactly
  when the size-classification field, the 32-bit integer at byte offset 32, equals 3, and
  to false for every other value; a blob of 56 bytes is decoded.
\<close>

theorem is_big_iff_size_type_3:
  assumes "udecode s = Inr (b # bs)" and "uint b = 1"
  shows "(length (b # bs) = 56 \<longrightarrow>
           (\<exists>d. decode_file_id udecode data s = Inr d
              \<and> is_big d = Some (field_at 32 4 (b # bs) = 3)))
       \<and> (\<forall>d. decode_file_id udecode data s = Inr d
              \<longrightarrow> is_big d = Some (field_at 32 4 (b # bs) = 3))"
  using assms(2)
  by (auto simp add: decode_file_id_framed [where udecode = udecode and s = s, OF assms(1)]
        parse_photo_like)

theorem is_big_iff_size_type_3_witness:
  "\<exists>d. decode_file_id (framed blob_big_photo) no_attributes ''id'' = Inr d
      \<and> is_big d = Some True"
proof -
  have a: "framed blob_big_photo ''id'' = Inr (1 # tl blob_big_photo)"
    by (simp add: framed_def blob_big_photo_def)
  have b: "uint (1 :: byte) = 1" by simp
  have l: "length (1 # tl blob_big_photo) = 56"
    by (simp add: blob_big_photo_def)
  have f: "field_at 32 4 (1 # tl blob_big_photo) = 3"
    by (simp add: blob_big_photo_def field_at_def le_sint_def)
  from is_big_iff_size_type_3 [where udecode = "framed blob_big_photo" and s = "''id''"
      and data = no_attributes, OF a b] l f
  show ?thesis by simp
qed

text \<open>
  A blob with at least one byte whose length is less than the size of the layout of its
  tag is rejected with \<^verbatim>\<open>FileIdInvalid\<close>, whether the tag is read as the first byte, as the
  code does, or as the 32-bit integer of the first four bytes.
\<close>

theorem short_blob_is_invalid:
  assumes "udecode s = Inr (b # bs)"
    and "t = uint b \<or> (4 \<le> length (b # bs) \<and> t = field_at 0 4 (b # bs))"
    and "format_of_tag t = Some fmt"
    and "length (b # bs) < calcsize fmt"
  shows "decode_file_id udecode data s = Inl FileIdInvalid"
proof -
  from format_of_tag_cases [OF assms(3)] have r: "0 \<le> t" "t < 256" by auto
  from assms(2) have "t = uint b"
  proof
    assume "t = uint b" then show ?thesis .
  next
    assume h: "4 \<le> length (b # bs) \<and> t = field_at 0 4 (b # bs)"
    with r first_byte_is_tag [of b bs] show ?thesis by simp
  qed
  with assms(3) have "format_of_tag (uint b) = Some fmt" by simp
  from wrong_length_invalid [where udecode = udecode and s = s, OF assms(1) this] assms(4)
  show ?thesis by simp
qed

theorem short_blob_is_invalid_witness:
  "decode_file_id (framed [8, 0, 0, 0, 5]) no_attributes ''id'' = Inl FileIdInvalid"
proof -
  have a: "framed [8, 0, 0, 0, 5] ''id'' = Inr (8 # [0, 0, 0, 5])"
    by (simp add: framed_def)
  have b: "8 = uint (8 :: byte) \<or> (4 \<le> length ((8 :: byte) # [0, 0, 0, 5])
      \<and> 8 = field_at 0 4 ((8 :: byte) # [0, 0, 0, 5]))" by simp
  have c: "format_of_tag 8 = Some fmt_iiqq" by (simp add: format_of_tag_def)
  have d: "length ((8 :: byte) # [0, 0, 0, 5]) < calcsize fmt_iiqq"
    by (simp add: calcsize_formats)
  from short_blob_is_invalid [where udecode = "framed [8, 0, 0, 0, 5]" and s = "''id''"
      and data = no_attributes, OF a b c d]
  show ?thesis .
qed

text \<open>
  C4. The blob with no byte at all, the shortest truncation of every layout, is not
  rejected with \<^verbatim>\<open>FileIdInvalid\<close>: \<^verbatim>\<open>decoded[0]\<close> raises \<^verbatim>\<open>IndexError\<close> before any
  \<^verbatim>\<open>struct.unpack\<close>, and the \<^verbatim>\<open>except\<close> clause of lines 181--182, which turns the
  \<^verbatim>\<open>struct.error\<close> of every other short blob into \<^verbatim>\<open>FileIdInvalid\<close>, does not name it.
  The file id \<^verbatim>\<open>"Ag"\<close> is the framing of the empty blob.
\<close>

theorem empty_blob_raises_IndexError:
  "decode_file_id (framed []) no_attributes ''Ag'' = Inl IndexError"
  by (simp add: decode_file_id_def framed_def parse_decoded_def translate_exn_def)

lemma translate_exn_simps:
  "translate_exn StructError = FileIdInvalid"
  "translate_exn AssertionError = FileIdInvalid"
  "translate_exn BinasciiError = FileIdInvalid"
  "translate_exn (ValueError m) = ValueError m"
  "translate_exn IndexError = IndexError"
  by (simp_all add: translate_exn_def)

lemma format_of_tag_None:
  "format_of_tag t = None \<longleftrightarrow> t \<notin> {0, 1, 2, 3, 4, 5, 8, 9, 10, 13, 14}"
  by (simp add: format_of_tag_def)

lemma chr_msg_not_unknown: "chr_msg \<noteq> unknown_media_type_msg s"
  by (simp add: chr_msg_def unknown_media_type_msg_def)

text \<open>
  C2, as stated, fails: the layout is selected by \<^verbatim>\<open>decoded[0]\<close>, the first byte, and not
  by the 32-bit integer of the first four bytes. The blob \<open>blob_tag257\<close> has the 32-bit tag
  257, which is no known tag, and is decoded as a photo-like identifier.
\<close>

theorem tag257_is_decoded:
  "field_at 0 4 blob_tag257 = 257 \<and> format_of_tag 257 = None
   \<and> decode_file_id (framed blob_tag257) no_attributes ''id'' =
       Inr (no_attributes\<lparr>media_type := Some 1, dc_id := Some 0, peer_id := Some 0,
              peer_access_hash := Some 0, volume_id := Some 0, local_id := Some 0,
              is_big := Some False\<rparr>)"
proof -
  have a: "framed blob_tag257 ''id'' = Inr (1 # 1 # 0 # 0 # replicate 52 0)"
    by (simp add: framed_def blob_tag257_def)
  have f: "field_at off n (1 # 1 # 0 # 0 # replicate 52 (0 :: byte)) = 0"
    if "4 \<le> off" for off n
  proof -
    have "drop off (1 # 1 # 0 # 0 # replicate 52 (0 :: byte)) = replicate (56 - off) 0"
      using that by (simp add: drop_Cons' )
    moreover have "le_uint (replicate k (0 :: byte)) = 0" for k
      by (induction k) simp_all
    ultimately show ?thesis
      by (simp add: field_at_def le_sint_def take_replicate)
  qed
  have t: "field_at 0 4 blob_tag257 = 257"
    by (simp add: blob_tag257_def field_at_def le_sint_def)
  have "decode_file_id (framed blob_tag257) no_attributes ''id'' =
      Inr (no_attributes\<lparr>media_type := Some 1, dc_id := Some 0, peer_id := Some 0,
              peer_access_hash := Some 0, volume_id := Some 0, local_id := Some 0,
              is_big := Some False\<rparr>)"
    by (simp add: decode_file_id_framed [where udecode = "framed blob_tag257" and s = "''id''", OF a]
          parse_photo_like f)
  with t show ?thesis by (simp add: format_of_tag_def)
qed

text \<open>
  C2, amended. The first byte of a blob selects exactly one of the three layouts, each with
  its fields at fixed byte offsets: 1 the photo-like layout of 56 bytes, 0, 2 and 14 the
  layout with a thumbnail code of 48 bytes, 3, 4, 5, 8, 9, 10 and 13 the plain layout of
  24 bytes; every other first byte, and the empty blob, make the decoder fail. The first
  byte is the 32-bit tag whenever that tag lies between 0 and 255.
\<close>

theorem first_byte_selects_layout:
  assumes "udecode s = Inr blob"
  shows "(blob = [] \<longrightarrow> decode_file_id udecode data s = Inl IndexError)
    \<and> (\<forall>b bs. blob = b # bs \<longrightarrow>
         (uint b = 1 \<longrightarrow> decode_file_id udecode data s =
            (if length blob = 56
             then Inr (data\<lparr>media_type := Some 1, dc_id := Some (field_at 4 4 blob),
                     peer_id := Some (field_at 36 4 blob),
                     peer_access_hash := Some (field_at 44 8 blob),
                     volume_id := Some (field_at 24 8 blob),
                     local_id := Some (field_at 52 4 blob),
                     is_big := Some (field_at 32 4 blob = 3)\<rparr>)
             else Inl FileIdInvalid))
       \<and> (uint b \<in> {0, 2, 14} \<longrightarrow> decode_file_id udecode data s =
            (if length blob = 48
             then (if 0 \<le> field_at 40 4 blob \<and> field_at 40 4 blob < 0x110000
                   then Inr (data\<lparr>media_type := Some (uint b),
                           dc_id := Some (field_at 4 4 blob),
                           document_id := Some (field_at 8 8 blob),
                           access_hash := Some (field_at 16 8 blob),
                           thumb_size := Some [field_at 40 4 blob]\<rparr>)
                   else Inl (ValueError chr_msg))
             else Inl FileIdInvalid))
       \<and> (uint b \<in> {3, 4, 5, 8, 9, 10, 13} \<longrightarrow> decode_file_id udecode data s =
            (if length blob = 24
             then Inr (data\<lparr>media_type := Some (uint b),
                     dc_id := Some (field_at 4 4 blob),
                     document_id := Some (field_at 8 8 blob),
                     access_hash := Some (field_at 16 8 blob)\<rparr>)
             else Inl FileIdInvalid))
       \<and> (uint b \<notin> {0, 1, 2, 3, 4, 5, 8, 9, 10, 13, 14} \<longrightarrow>
            decode_file_id udecode data s = Inl (ValueError (unknown_media_type_msg s)))
       \<and> (4 \<le> length blob \<and> 0 \<le> field_at 0 4 blob \<and> field_at 0 4 blob < 256 \<longrightarrow>
            uint b = field_at 0 4 blob))"
proof -
  note d = decode_file_id_framed [where udecode = udecode and s = s, OF assms]
  have e: "blob = [] \<longrightarrow> decode_file_id udecode data s = Inl IndexError"
    by (simp add: d parse_decoded_def translate_exn_simps)
  have c: "decode_file_id udecode data s =
            (if length blob = 56
             then Inr (data\<lparr>media_type := Some 1, dc_id := Some (field_at 4 4 blob),
                     peer_id := Some (field_at 36 4 blob),
                     peer_access_hash := Some (field_at 44 8 blob),
                     volume_id := Some (field_at 24 8 blob),
                     local_id := Some (field_at 52 4 blob),
                     is_big := Some (field_at 32 4 blob = 3)\<rparr>)
             else Inl FileIdInvalid)" if "blob = b # bs" "uint b = 1" for b bs
    using that by (simp add: d parse_photo_like translate_exn_simps)
  have t: "decode_file_id udecode data s =
            (if length blob = 48
             then (if 0 \<le> field_at 40 4 blob \<and> field_at 40 4 blob < 0x110000
                   then Inr (data\<lparr>media_type := Some (uint b),
                           dc_id := Some (field_at 4 4 blob),
                           document_id := Some (field_at 8 8 blob),
                           access_hash := Some (field_at 16 8 blob),
                           thumb_size := Some [field_at 40 4 blob]\<rparr>)
                   else Inl (ValueError chr_msg))
             else Inl FileIdInvalid)" if "blob = b # bs" "uint b \<in> {0, 2, 14}" for b bs
  proof -
    from that(2) have "uint b = 0 \<or> uint b = 2 \<or> uint b = 14" by simp
    from parse_with_thumb [OF this] that(1) show ?thesis
      by (simp add: d translate_exn_simps)
  qed
  have p: "decode_file_id udecode data s =
            (if length blob = 24
             then Inr (data\<lparr>media_type := Some (uint b),
                     dc_id := Some (field_at 4 4 blob),
                     document_id := Some (field_at 8 8 blob),
                     access_hash := Some (field_at 16 8 blob)\<rparr>)
             else Inl FileIdInvalid)"
    if "blob = b # bs" "uint b \<in> {3, 4, 5, 8, 9, 10, 13}" for b bs
    using parse_plain [OF that(2)] that(1) by (simp add: d translate_exn_simps)
  have u: "decode_file_id udecode data s = Inl (ValueError (unknown_media_type_msg s))"
    if "blob = b # bs" "uint b \<notin> {0, 1, 2, 3, 4, 5, 8, 9, 10, 13, 14}" for b bs
    using parse_unknown [OF that(2)] that(1) by (simp add: d translate_exn_simps)
  have f: "uint b = field_at 0 4 blob"
    if "blob = b # bs" "4 \<le> length blob" "0 \<le> field_at 0 4 blob" "field_at 0 4 blob < 256"
    for b bs
    using first_byte_is_tag [of b bs] that by simp
  show ?thesis
    apply (intro conjI allI impI)
         apply (simp add: e)
        apply (erule (1) c)
       apply (erule (1) t)
      apply (erule (1) p)
     apply (erule (1) u)
    apply (elim conjE)
    apply (erule (3) f)
    done
qed

theorem first_byte_selects_layout_witness:
  "decode_file_id (framed [8, 0, 0, 0, 5]) no_attributes ''id'' = Inl FileIdInvalid
   \<and> decode_file_id (framed [7, 0, 0, 0]) no_attributes ''id'' =
        Inl (ValueError (unknown_media_type_msg ''id''))
   \<and> uint (7 :: byte) = field_at 0 4 [7, 0, 0, 0]"
proof -
  have a: "framed [8, 0, 0, 0, 5] ''id'' = Inr [8, 0, 0, 0, 5]"
    and b: "framed [7, 0, 0, 0] ''id'' = Inr [7, 0, 0, 0]"
    by (simp_all add: framed_def)
  have f: "field_at 0 4 [7, 0, 0, 0] = 7"
    by (simp add: field_at_def le_sint_def)
  from first_byte_selects_layout [where udecode = "framed [8, 0, 0, 0, 5]" and s = "''id''"
      and data = no_attributes, OF a]
  have "decode_file_id (framed [8, 0, 0, 0, 5]) no_attributes ''id'' = Inl FileIdInvalid"
    by simp
  moreover
  from first_byte_selects_layout [where udecode = "framed [7, 0, 0, 0]" and s = "''id''"
      and data = no_attributes, OF b] f
  have "decode_file_id (framed [7, 0, 0, 0]) no_attributes ''id'' =
        Inl (ValueError (unknown_media_type_msg ''id''))
   \<and> uint (7 :: byte) = field_at 0 4 [7, 0, 0, 0]"
    by simp
  ultimately show ?thesis by simp
qed

text \<open>
  C3, as stated, fails: a blob whose 32-bit tag is 257 has the first byte 1, is unpacked
  with the photo-like format and, being too short, ends in \<^verbatim>\<open>FileIdInvalid\<close>; and the
  \<^verbatim>\<open>ValueError\<close> of an unknown first byte carries the file id string, not the tag.
\<close>

theorem tag257_is_invalid:
  "field_at 0 4 [1, 1, 0, 0] = 257 \<and> format_of_tag 257 = None
   \<and> decode_file_id (framed [1, 1, 0, 0]) no_attributes ''id'' = Inl FileIdInvalid
   \<and> decode_file_id (framed [7, 0, 0, 0]) no_attributes ''id'' =
        Inl (ValueError ''Unknown media type: id'')"
proof -
  have a: "framed [1, 1, 0, 0] ''id'' = Inr [1, 1, 0, 0]"
    and b: "framed [7, 0, 0, 0] ''id'' = Inr [7, 0, 0, 0]"
    by (simp_all add: framed_def)
  have "decode_file_id (framed [1, 1, 0, 0]) no_attributes ''id'' = Inl FileIdInvalid"
    by (simp add: decode_file_id_framed [where udecode = "framed [1, 1, 0, 0]"
          and s = "''id''", OF a] parse_photo_like translate_exn_simps)
  moreover
  have "decode_file_id (framed [7, 0, 0, 0]) no_attributes ''id'' =
        Inl (ValueError ''Unknown media type: id'')"
    by (simp add: decode_file_id_framed [where udecode = "framed [7, 0, 0, 0]"
          and s = "''id''", OF b] parse_unknown translate_exn_simps unknown_media_type_msg_def)
  moreover have "field_at 0 4 [1, 1, 0, 0] = 257"
    by (simp add: field_at_def le_sint_def)
  ultimately show ?thesis by (simp add: format_of_tag_def)
qed

text \<open>
  C3, amended. For every well-framed blob whose first byte (which is the leading 32-bit tag
  when that tag lies between 0 and 255) is none of the known tags, the decoder fails with
  the \<^verbatim>\<open>ValueError\<close> "Unknown media type" carrying the file id string, and never with
  \<^verbatim>\<open>FileIdInvalid\<close>.
\<close>

theorem unknown_first_byte_is_ValueError:
  assumes "udecode s = Inr (b # bs)"
    and "t = uint b
         \<or> (4 \<le> length (b # bs) \<and> t = field_at 0 4 (b # bs) \<and> 0 \<le> t \<and> t < 256)"
    and "format_of_tag t = None"
  shows "decode_file_id udecode data s = Inl (ValueError (''Unknown media type: '' @ s))
       \<and> decode_file_id udecode data s \<noteq> Inl FileIdInvalid"
proof -
  from assms(2) have "t = uint b"
  proof
    assume "t = uint b" then show ?thesis .
  next
    assume "4 \<le> length (b # bs) \<and> t = field_at 0 4 (b # bs) \<and> 0 \<le> t \<and> t < 256"
    with first_byte_is_tag [of b bs] show ?thesis by simp
  qed
  with assms(3) have "uint b \<notin> {0, 1, 2, 3, 4, 5, 8, 9, 10, 13, 14}"
    by (simp add: format_of_tag_None)
  from parse_unknown [OF this] show ?thesis
    by (simp add: decode_file_id_framed [where udecode = udecode and s = s, OF assms(1)]
          translate_exn_simps unknown_media_type_msg_def)
qed

theorem unknown_first_byte_is_ValueError_witness:
  "decode_file_id (framed [7, 0, 0, 0]) no_attributes ''AbC'' =
     Inl (ValueError ''Unknown media type: AbC'')"
proof -
  have a: "framed [7, 0, 0, 0] ''AbC'' = Inr (7 # [0, 0, 0])"
    by (simp add: framed_def)
  have b: "7 = uint (7 :: byte)
         \<or> (4 \<le> length ((7 :: byte) # [0, 0, 0]) \<and> 7 = field_at 0 4 ((7 :: byte) # [0, 0, 0])
            \<and> 0 \<le> (7 :: int) \<and> (7 :: int) < 256)"
    by simp
  have c: "format_of_tag 7 = None" by (simp add: format_of_tag_def)
  from unknown_first_byte_is_ValueError [where udecode = "framed [7, 0, 0, 0]"
      and s = "''AbC''" and data = no_attributes, OF a b c]
  show ?thesis by simp
qed

text \<open>
  C10. There is a blob of the layout with a thumbnail code (first byte 0, 2 or 14, 48
  bytes) whose thumbnail field is no code point, and for every such blob \<^verbatim>\<open>chr\<close> raises a
  \<^verbatim>\<open>ValueError\<close> that the \<^verbatim>\<open>except\<close> clause does not catch: the decoder fails neither with
  \<^verbatim>\<open>FileIdInvalid\<close> nor with the error of an unknown media type.
\<close>

theorem thumb_code_out_of_range:
  "(\<exists>b bs. uint b \<in> {0, 2, 14} \<and> length (b # bs) = 48
        \<and> (field_at 40 4 (b # bs) < 0 \<or> 0x10FFFF < field_at 40 4 (b # bs)))
   \<and> (\<forall>udecode s data b bs.
        udecode s = Inr (b # bs) \<and> uint b \<in> {0, 2, 14} \<and> length (b # bs) = 48
        \<and> (field_at 40 4 (b # bs) < 0 \<or> 0x10FFFF < field_at 40 4 (b # bs))
        \<longrightarrow> decode_file_id udecode data s = Inl (ValueError chr_msg)
          \<and> decode_file_id udecode data s \<noteq> Inl FileIdInvalid
          \<and> decode_file_id udecode data s \<noteq> Inl (ValueError (unknown_media_type_msg s)))"
proof (intro conjI allI impI)
  have "field_at 40 4 blob_thumb_negative = - 1"
    by (simp add: blob_thumb_negative_def field_at_def le_sint_def)
  moreover have "length blob_thumb_negative = 48"
    by (simp add: blob_thumb_negative_def)
  moreover have "blob_thumb_negative = 2 # tl blob_thumb_negative"
    by (simp add: blob_thumb_negative_def)
  ultimately
  have "uint (2 :: byte) \<in> {0, 2, 14} \<and> length (2 # tl blob_thumb_negative) = 48
        \<and> (field_at 40 4 (2 # tl blob_thumb_negative) < 0
            \<or> 0x10FFFF < field_at 40 4 (2 # tl blob_thumb_negative))"
    by simp
  then show "\<exists>b bs. uint b \<in> {0, 2, 14} \<and> length (b # bs) = 48
        \<and> (field_at 40 4 (b # bs) < 0 \<or> 0x10FFFF < field_at 40 4 (b # bs))"
    by blast
next
  fix udecode :: "string \<Rightarrow> py_exn + byte list" and s data b bs
  assume h: "udecode s = Inr (b # bs) \<and> uint b \<in> {0, 2, 14} \<and> length (b # bs) = 48
        \<and> (field_at 40 4 (b # bs) < 0 \<or> 0x10FFFF < field_at 40 4 (b # bs))"
  then have u: "udecode s = Inr (b # bs)"
    and t: "uint b = 0 \<or> uint b = 2 \<or> uint b = 14"
    and l: "length (b # bs) = 48"
    and f: "\<not> (0 \<le> field_at 40 4 (b # bs) \<and> field_at 40 4 (b # bs) < 0x110000)"
    by auto
  from parse_with_thumb [OF t] l f
  show r: "decode_file_id udecode data s = Inl (ValueError chr_msg)"
    by (simp add: decode_file_id_framed [where udecode = udecode and s = s, OF u]
          translate_exn_simps)
  from r show "decode_file_id udecode data s \<noteq> Inl FileIdInvalid" by simp
  from r show "decode_file_id udecode data s \<noteq> Inl (ValueError (unknown_media_type_msg s))"
    by (simp add: chr_msg_not_unknown)
qed

theorem thumb_code_out_of_range_witness:
  "decode_file_id (framed blob_thumb_negative) no_attributes ''id'' = Inl (ValueError chr_msg)"
proof -
  have a: "framed blob_thumb_negative ''id'' = Inr (2 # tl blob_thumb_negative)"
    by (simp add: framed_def blob_thumb_negative_def)
  have b: "uint (2 :: byte) \<in> {0, 2, 14}" by simp
  have l: "length (2 # tl blob_thumb_negative) = 48"
    by (simp add: blob_thumb_negative_def)
  have f: "field_at 40 4 (2 # tl blob_thumb_negative) < 0"
    by (simp add: blob_thumb_negative_def field_at_def le_sint_def)
  from thumb_code_out_of_range a b l f show ?thesis by blast
qed

section \<open>Encoding and decoding\<close>

lemma struct_pack_first_byte:
  assumes "struct_pack (Fi # cs) (tag # vs) = Inr packed" and "0 \<le> tag" and "tag < 256"
  shows "\<exists>b bs. packed = b # bs \<and> uint b = tag"
proof -
  have u: "uint (word_of_int tag :: byte) = tag"
    using assms(2,3) by (simp add: uint_word_of_int)
  have "le_bytes 4 tag = word_of_int tag # le_bytes 3 (tag div 256)"
    by (simp add: numeral_eq_Suc)
  with assms(1) u show ?thesis
    by (auto simp add: struct_pack_def split: if_splits option.splits)
qed

lemma roundtrip_photo_like:
  assumes "struct_pack fmt_iiqqqiiiqi
             [1, dc, photo_id, u1, volume, size_type, peer, u2, peer_hash, loc] = Inr packed"
  shows "parse_decoded data s packed =
     Inr (data\<lparr>media_type := Some 1, dc_id := Some dc, peer_id := Some peer,
            peer_access_hash := Some peer_hash, volume_id := Some volume,
            local_id := Some loc, is_big := Some (size_type = 3)\<rparr>)"
proof -
  have "struct_pack (Fi # tl fmt_iiqqqiiiqi)
          (1 # [dc, photo_id, u1, volume, size_type, peer, u2, peer_hash, loc]) = Inr packed"
    using assms by (simp add: fmt_iiqqqiiiqi_def)
  from struct_pack_first_byte [OF this]
  obtain b bs where p: "packed = b # bs" and b: "uint b = 1"
    by auto
  from struct_unpack_pack [OF assms] p b show ?thesis
    by (simp add: parse_decoded_def)
qed

lemma roundtrip_with_thumb:
  assumes "struct_pack fmt_iiqqqiiii [tag, dc, doc, hash, volume, u1, u2, t, loc] = Inr packed"
    and "tag \<in> {0, 2, 14}" and "0 \<le> t" and "t < 0x110000"
  shows "parse_decoded data s packed =
     Inr (data\<lparr>media_type := Some tag, dc_id := Some dc, document_id := Some doc,
            access_hash := Some hash, thumb_size := Some [t]\<rparr>)"
proof -
  have "struct_pack (Fi # tl fmt_iiqqqiiii)
          (tag # [dc, doc, hash, volume, u1, u2, t, loc]) = Inr packed"
    using assms(1) by (simp add: fmt_iiqqqiiii_def)
  from struct_pack_first_byte [OF this] assms(2)
  obtain b bs where p: "packed = b # bs" and b: "uint b = tag"
    by auto
  from struct_unpack_pack [OF assms(1)] p b assms(2,3,4) show ?thesis
    by (auto simp add: parse_decoded_def py_chr_def)
qed

lemma roundtrip_plain:
  assumes "struct_pack fmt_iiqq [tag, dc, doc, hash] = Inr packed"
    and "tag \<in> {3, 4, 5, 8, 9, 10, 13}"
  shows "parse_decoded data s packed =
     Inr (data\<lparr>media_type := Some tag, dc_id := Some dc, document_id := Some doc,
            access_hash := Some hash\<rparr>)"
proof -
  have "struct_pack (Fi # tl fmt_iiqq) (tag # [dc, doc, hash]) = Inr packed"
    using assms(1) by (simp add: fmt_iiqq_def)
  from struct_pack_first_byte [OF this] assms(2)
  obtain b bs where p: "packed = b # bs" and b: "uint b = tag"
    by auto
  from struct_unpack_pack [OF assms(1)] p b assms(2) show ?thesis
    by (auto simp add: parse_decoded_def)
qed

lemma py_ord_Inr: "py_ord s = Inr t \<Longrightarrow> s = [t]"
  by (cases s rule: py_ord.cases) simp_all

lemma parse_packed_identifier:
  assumes "supported x" and "pack_identifier skipped x = Inr packed"
  shows "parse_decoded data s packed = Inr (extracted data x)"
proof (cases x)
  case (PhotoLike dc peer peer_hash volume loc size_type)
  with assms(2) obtain photo_id u1 u2 where
    "struct_pack fmt_iiqqqiiiqi
       [1, dc, photo_id, u1, volume, size_type, peer, u2, peer_hash, loc] = Inr packed"
    by (auto split: list.splits)
  from roundtrip_photo_like [OF this] PhotoLike show ?thesis by simp
next
  case (DocumentWithThumb tag dc doc hash thumb)
  with assms(2) obtain volume u1 u2 loc t where
    o: "py_ord thumb = Inr t"
    and k: "struct_pack fmt_iiqqqiiii [tag, dc, doc, hash, volume, u1, u2, t, loc] = Inr packed"
    by (auto split: list.splits sum.splits)
  from o have th: "thumb = [t]" by (rule py_ord_Inr)
  with assms(1) DocumentWithThumb have "tag \<in> {0, 2, 14}" "0 \<le> t" "t < 0x110000"
    by (simp_all add: is_pystr_def)
  from roundtrip_with_thumb [OF k this] DocumentWithThumb th show ?thesis by simp
next
  case (DocumentPlain tag dc doc hash)
  with assms(2) have
    k: "struct_pack fmt_iiqq [tag, dc, doc, hash] = Inr packed"
    by (auto split: list.splits)
  from assms(1) DocumentPlain have "tag \<in> {3, 4, 5, 8, 9, 10, 13}" by simp
  from roundtrip_plain [OF k this] DocumentPlain show ?thesis by simp
qed

lemma string_as_bytes_inverse:
  assumes "bytes_as_string packed = Inr s"
  shows "string_as_bytes s = Inr packed"
proof -
  have "(of_nat (of_char (char_of (unat b) :: char) :: nat) :: byte) = b" for b :: byte
  proof -
    have "unat b < 2 ^ LENGTH(8)" by (rule unsigned_less)
    then have "unat b < 256" by simp
    then show ?thesis by simp
  qed
  then have "map (\<lambda>c. of_nat (of_char c)) (map (\<lambda>b. char_of (unat b)) packed) = packed"
    by (simp add: map_idI)
  with assms show ?thesis
    by (auto simp add: bytes_as_string_def string_as_bytes_def)
qed

text \<open>
  C1. Let the framing layer be inverted at the file id \<open>s\<close>: \<^verbatim>\<open>utils.decode\<close> gives back
  the bytes that \<^verbatim>\<open>utils.encode\<close> turned into \<open>s\<close>. Then decoding the file id of an
  identifier of any supported tag gives back every field the decoder extracts, as it was
  encoded, with \<open>is_big\<close> the classification of the encoded size field and the thumbnail
  code the encoded character; so it is for the file ids built by \<^verbatim>\<open>Photo._parse\<close> (tag 2)
  and \<^verbatim>\<open>Sticker._parse\<close> (tag 8).
\<close>

theorem decode_inverts_encode:
  assumes inv: "\<forall>packed. uencode packed = Inr s \<longrightarrow> udecode s = Inr packed"
  shows "(\<forall>x skipped packed.
            supported x \<and> pack_identifier skipped x = Inr packed \<and> uencode packed = Inr s
            \<longrightarrow> decode_file_id udecode data s = Inr (extracted data x))
       \<and> (\<forall>p. Photo_parse_file_id uencode (Photo p) = Inr (Some s)
                \<and> is_pystr (ps_type (last (p_sizes p)))
            \<longrightarrow> decode_file_id udecode data s =
                  Inr (data\<lparr>media_type := Some 2, dc_id := Some (p_dc_id p),
                         document_id := Some (p_id p),
                         access_hash := Some (p_access_hash p),
                         thumb_size := Some (ps_type (last (p_sizes p)))\<rparr>))
       \<and> (\<forall>st. Sticker_parse_file_id uencode st = Inr s
            \<longrightarrow> decode_file_id udecode data s =
                  Inr (data\<lparr>media_type := Some 8, dc_id := Some (d_dc_id st),
                         document_id := Some (d_id st),
                         access_hash := Some (d_access_hash st)\<rparr>))"
proof (intro conjI allI impI)
  fix x skipped packed
  assume h: "supported x \<and> pack_identifier skipped x = Inr packed \<and> uencode packed = Inr s"
  with inv have u: "udecode s = Inr packed" by simp
  from h parse_packed_identifier [of x skipped packed data s]
  show "decode_file_id udecode data s = Inr (extracted data x)"
    by (simp add: decode_file_id_framed [where udecode = udecode and s = s, OF u])
next
  fix p
  assume h: "Photo_parse_file_id uencode (Photo p) = Inr (Some s)
                \<and> is_pystr (ps_type (last (p_sizes p)))"
  let ?big = "last (p_sizes p)"
  from h obtain t packed where
    o: "py_ord (ps_type ?big) = Inr t"
    and k: "struct_pack fmt_iiqqqiiii
              [2, p_dc_id p, p_id p, p_access_hash p, ps_volume_id ?big, 1, 2, t,
               ps_local_id ?big] = Inr packed"
    and e: "uencode packed = Inr s"
    by (auto simp add: Photo_parse_file_id_def Let_def split: if_splits sum.splits)
  from e inv have u: "udecode s = Inr packed" by simp
  from o have th: "ps_type ?big = [t]" by (rule py_ord_Inr)
  with h have "(2 :: int) \<in> {0, 2, 14}" "0 \<le> t" "t < 0x110000"
    by (simp_all add: is_pystr_def)
  from roundtrip_with_thumb [OF k this] th
  show "decode_file_id udecode data s =
                  Inr (data\<lparr>media_type := Some 2, dc_id := Some (p_dc_id p),
                         document_id := Some (p_id p),
                         access_hash := Some (p_access_hash p),
                         thumb_size := Some (ps_type (last (p_sizes p)))\<rparr>)"
    by (simp add: decode_file_id_framed [where udecode = udecode and s = s, OF u])
next
  fix st
  assume h: "Sticker_parse_file_id uencode st = Inr s"
  then obtain packed where
    k: "struct_pack fmt_iiqq [8, d_dc_id st, d_id st, d_access_hash st] = Inr packed"
    and e: "uencode packed = Inr s"
    by (auto simp add: Sticker_parse_file_id_def split: sum.splits)
  from e inv have u: "udecode s = Inr packed" by simp
  have "(8 :: int) \<in> {3, 4, 5, 8, 9, 10, 13}" by simp
  from roundtrip_plain [OF k this]
  show "decode_file_id udecode data s =
                  Inr (data\<lparr>media_type := Some 8, dc_id := Some (d_dc_id st),
                         document_id := Some (d_id st),
                         access_hash := Some (d_access_hash st)\<rparr>)"
    by (simp add: decode_file_id_framed [where udecode = udecode and s = s, OF u])
qed

theorem decode_inverts_encode_witness:
  "(\<exists>s. Sticker_parse_file_id bytes_as_string sticker_example = Inr s
     \<and> decode_file_id string_as_bytes no_attributes s =
         Inr (no_attributes\<lparr>media_type := Some 8, dc_id := Some 4,
                document_id := Some 1234567890123, access_hash := Some (- 5)\<rparr>))
   \<and> (\<exists>s. Photo_parse_file_id bytes_as_string (Photo photo_example) = Inr (Some s)
     \<and> decode_file_id string_as_bytes no_attributes s =
         Inr (no_attributes\<lparr>media_type := Some 2, dc_id := Some 2,
                document_id := Some 5000000000, access_hash := Some (- 77),
                thumb_size := Some [120]\<rparr>))
   \<and> (\<exists>packed s. pack_identifier [11, 12, 13] (PhotoLike 2 100 (- 7) 5 9 3) = Inr packed
     \<and> bytes_as_string packed = Inr s
     \<and> decode_file_id string_as_bytes no_attributes s =
         Inr (no_attributes\<lparr>media_type := Some 1, dc_id := Some 2, peer_id := Some 100,
                peer_access_hash := Some (- 7), volume_id := Some 5, local_id := Some 9,
                is_big := Some True\<rparr>))"
proof -
  have inv: "\<forall>packed. bytes_as_string packed = Inr s \<longrightarrow> string_as_bytes s = Inr packed"
    for s
    using string_as_bytes_inverse by blast
  obtain s1 where s1: "Sticker_parse_file_id bytes_as_string sticker_example = Inr s1"
    by (simp add: Sticker_parse_file_id_def sticker_example_def struct_pack_def fmt_iiqq_def
          in_range_def bytes_as_string_def)
  from decode_inverts_encode [where uencode = bytes_as_string and udecode = string_as_bytes
      and s = s1 and data = no_attributes, OF inv] s1
  have "decode_file_id string_as_bytes no_attributes s1 =
         Inr (no_attributes\<lparr>media_type := Some 8, dc_id := Some (d_dc_id sticker_example),
                document_id := Some (d_id sticker_example),
                access_hash := Some (d_access_hash sticker_example)\<rparr>)"
    by blast
  with s1 have a: "\<exists>s. Sticker_parse_file_id bytes_as_string sticker_example = Inr s
     \<and> decode_file_id string_as_bytes no_attributes s =
         Inr (no_attributes\<lparr>media_type := Some 8, dc_id := Some 4,
                document_id := Some 1234567890123, access_hash := Some (- 5)\<rparr>)"
    by (auto simp add: sticker_example_def)
  obtain s2 where s2: "Photo_parse_file_id bytes_as_string (Photo photo_example) = Inr (Some s2)"
    by (simp add: Photo_parse_file_id_def photo_example_def struct_pack_def fmt_iiqqqiiii_def
          in_range_def bytes_as_string_def)
  have p: "is_pystr (ps_type (last (p_sizes photo_example)))"
    by (simp add: photo_example_def is_pystr_def)
  from decode_inverts_encode [where uencode = bytes_as_string and udecode = string_as_bytes
      and s = s2 and data = no_attributes, OF inv] s2 p
  have "decode_file_id string_as_bytes no_attributes s2 =
         Inr (no_attributes\<lparr>media_type := Some 2, dc_id := Some (p_dc_id photo_example),
                document_id := Some (p_id photo_example),
                access_hash := Some (p_access_hash photo_example),
                thumb_size := Some (ps_type (last (p_sizes photo_example)))\<rparr>)"
    by blast
  with s2 have b: "\<exists>s. Photo_parse_file_id bytes_as_string (Photo photo_example) = Inr (Some s)
     \<and> decode_file_id string_as_bytes no_attributes s =
         Inr (no_attributes\<lparr>media_type := Some 2, dc_id := Some 2,
                document_id := Some 5000000000, access_hash := Some (- 77),
                thumb_size := Some [120]\<rparr>)"
    by (auto simp add: photo_example_def)
  obtain packed where k: "pack_identifier [11, 12, 13] (PhotoLike 2 100 (- 7) 5 9 3) = Inr packed"
    by (simp add: struct_pack_def fmt_iiqqqiiiqi_def in_range_def)
  obtain s3 where s3: "bytes_as_string packed = Inr s3"
    by (simp add: bytes_as_string_def)
  have "supported (PhotoLike 2 100 (- 7) 5 9 3)" by simp
  with decode_inverts_encode [where uencode = bytes_as_string and udecode = string_as_bytes
      and s = s3 and data = no_attributes, OF inv] k s3
  have "decode_file_id string_as_bytes no_attributes s3 =
          Inr (extracted no_attributes (PhotoLike 2 100 (- 7) 5 9 3))"
    by blast
  with k s3 have c: "\<exists>packed s. pack_identifier [11, 12, 13] (PhotoLike 2 100 (- 7) 5 9 3) = Inr packed
     \<and> bytes_as_string packed = Inr s
     \<and> decode_file_id string_as_bytes no_attributes s =
         Inr (no_attributes\<lparr>media_type := Some 1, dc_id := Some 2, peer_id := Some 100,
                peer_access_hash := Some (- 7), volume_id := Some 5, local_id := Some 9,
                is_big := Some True\<rparr>)"
    by auto
  from a b c show ?thesis by blast
qed

section \<open>The retry loop of \<^verbatim>\<open>send_video_note\<close>\<close>

lemma send_loop_missing_part:
  assumes "send up n = Inl (FilePartMissing i)" and "save_part up n i = None"
  shows "send_loop up v (Some fid) (Suc fuel) n calls =
         send_loop up v (Some fid) fuel (Suc n) (calls @ [Send, SaveFile v (Some fid) i])"
  using assms by simp

lemma send_loop_message:
  assumes "send up n = Inr r" and "first_new_message r (updates r) = Some m"
  shows "send_loop up v file (Suc fuel) n calls = (Some (Inr (Some m)), calls @ [Send])"
  using assms by simp

lemma send_loop_raises:
  assumes "send up n = Inl e" and "\<forall>x. e \<noteq> FilePartMissing x"
  shows "send_loop up v file (Suc fuel) n calls = (Some (Inl e), calls @ [Send])"
  using assms by (cases e) simp_all

lemma send_loop_part_raises:
  assumes "send up n = Inl (FilePartMissing i)" and "save_part up n i = Some e"
  shows "send_loop up v (Some fid) (Suc fuel) n calls =
         (Some (Inl e), calls @ [Send, SaveFile v (Some fid) i])"
  using assms by simp

lemma upload_phase_calls:
  assumes "upload_phase up v thumb = (Inr (Some fid), calls0)"
  shows "calls0 = (case thumb of None \<Rightarrow> [] | Some t \<Rightarrow> [SaveFile t None 0]) @ [SaveFile v None 0]"
  using assms
  by (auto simp add: upload_phase_def split: if_splits option.splits sum.splits)

lemma send_video_note_never_StopTransmission:
  "fst (send_video_note up v thumb fuel) \<noteq> Some (Inl StopTransmission)"
  by (auto simp add: send_video_note_def split: prod.splits option.splits sum.splits)

lemma download_media_cancelled:
  "download_media (self\<lparr>worker := \<lambda>j. worker_result Cancelled\<rparr>) message fn True =
     (case download_media self message fn True of
        Inl e \<Rightarrow> Inl e
      | Inr (j, r) \<Rightarrow> Inr (j, None))"
proof -
  have s: "synthesized_name (self\<lparr>worker := w\<rparr>) = synthesized_name self" for w
    by (rule ext)+ (simp add: synthesized_name_def)
  have e: "enqueue_download (self\<lparr>worker := \<lambda>j. None\<rparr>) data fr fn True =
     (case enqueue_download self data fr fn True of
        Inl e \<Rightarrow> Inl e
      | Inr (j, r) \<Rightarrow> Inr (j, None))" for data fr
    by (simp add: enqueue_download_def s Let_def split: prod.splits option.splits)
  show ?thesis
    by (simp add: download_media_def e Let_def
          split: dl_message.splits option.splits sum.splits prod.splits)
qed

text \<open>
  C5. After an upload, let the first send fail with \<^verbatim>\<open>FilePartMissing\<close> for part \<open>i\<close> and
  let the part be saved. Then the calls made are the uploads, the send, one
  \<^verbatim>\<open>save_file\<close> with the id of the uploaded file and \<^verbatim>\<open>file_part=i\<close>, and the second send:
  no other part is saved and the file is not uploaded again. When the second send returns
  a response with a new message, that message is returned; when it raises another error,
  which is not the stop of the transmission, that error reaches the caller. Two sends of
  fuel are enough.
\<close>

theorem missing_part_is_resent_once:
  assumes "upload_phase up video_note thumb = (Inr (Some fid), calls0)"
    and "send up 0 = Inl (FilePartMissing i)"
    and "save_part up 0 i = None"
  shows "calls0 = (case thumb of None \<Rightarrow> [] | Some t \<Rightarrow> [SaveFile t None 0])
                  @ [SaveFile video_note None 0]
    \<and> (\<forall>r m. send up (Suc 0) = Inr r \<and> first_new_message r (updates r) = Some m \<longrightarrow>
          send_video_note up video_note thumb (Suc (Suc fuel)) =
            (Some (Inr (Some m)), calls0 @ [Send, SaveFile video_note (Some fid) i, Send]))
    \<and> (\<forall>e. send up (Suc 0) = Inl e \<and> (\<forall>x. e \<noteq> FilePartMissing x) \<and> e \<noteq> StopTransmission \<longrightarrow>
          send_video_note up video_note thumb (Suc (Suc fuel)) =
            (Some (Inl e), calls0 @ [Send, SaveFile video_note (Some fid) i, Send]))"
proof (intro conjI allI impI)
  show "calls0 = (case thumb of None \<Rightarrow> [] | Some t \<Rightarrow> [SaveFile t None 0])
                  @ [SaveFile video_note None 0]"
    by (rule upload_phase_calls [OF assms(1)])
next
  fix r m
  assume h: "send up (Suc 0) = Inr r \<and> first_new_message r (updates r) = Some m"
  have "send_video_note_body up video_note thumb (Suc (Suc fuel)) =
          send_loop up video_note (Some fid) (Suc fuel) (Suc 0)
            (calls0 @ [Send, SaveFile video_note (Some fid) i])"
    using send_loop_missing_part [OF assms(2,3)] assms(1)
    by (simp add: send_video_note_body_def)
  also have "\<dots> = (Some (Inr (Some m)), calls0 @ [Send, SaveFile video_note (Some fid) i, Send])"
    using h send_loop_message [of up "Suc 0" r m] by simp
  finally show "send_video_note up video_note thumb (Suc (Suc fuel)) =
            (Some (Inr (Some m)), calls0 @ [Send, SaveFile video_note (Some fid) i, Send])"
    by (simp add: send_video_note_def)
next
  fix e
  assume h: "send up (Suc 0) = Inl e \<and> (\<forall>x. e \<noteq> FilePartMissing x) \<and> e \<noteq> StopTransmission"
  have "send_video_note_body up video_note thumb (Suc (Suc fuel)) =
          send_loop up video_note (Some fid) (Suc fuel) (Suc 0)
            (calls0 @ [Send, SaveFile video_note (Some fid) i])"
    using send_loop_missing_part [OF assms(2,3)] assms(1)
    by (simp add: send_video_note_body_def)
  also have "\<dots> = (Some (Inl e), calls0 @ [Send, SaveFile video_note (Some fid) i, Send])"
    using h send_loop_raises [of up "Suc 0" e] by simp
  finally show "send_video_note up video_note thumb (Suc (Suc fuel)) =
            (Some (Inl e), calls0 @ [Send, SaveFile video_note (Some fid) i, Send])"
    using h by (simp add: send_video_note_def)
qed

theorem missing_part_is_resent_once_witness:
  "send_video_note uploader_example ''note.mp4'' None (Suc (Suc 0)) =
     (Some (Inr (Some (ParsedMessage 5 [10] [20] False))),
      [SaveFile ''note.mp4'' None 0, Send, SaveFile ''note.mp4'' (Some 77) 3, Send])"
proof -
  have a: "upload_phase uploader_example ''note.mp4'' None =
             (Inr (Some 77), [SaveFile ''note.mp4'' None 0])"
    by (simp add: upload_phase_def uploader_example_def)
  have b: "send uploader_example 0 = Inl (FilePartMissing 3)"
    by (simp add: uploader_example_def)
  have c: "save_part uploader_example 0 3 = None"
    by (simp add: uploader_example_def)
  have d: "send uploader_example (Suc 0) =
             Inr \<lparr>updates = [UpdateOther, UpdateNewMessage 5], users = [10], chats = [20]\<rparr>
         \<and> first_new_message
               \<lparr>updates = [UpdateOther, UpdateNewMessage 5], users = [10], chats = [20]\<rparr>
               (updates \<lparr>updates = [UpdateOther, UpdateNewMessage 5], users = [10],
                          chats = [20]\<rparr>) = Some (ParsedMessage 5 [10] [20] False)"
    by (simp add: uploader_example_def)
  from missing_part_is_resent_once [OF a b c, of 0] d show ?thesis
    by simp
qed

text \<open>
  C8. \<^verbatim>\<open>send_video_note\<close> never raises \<^verbatim>\<open>StopTransmission\<close>: when its body does, during an
  upload, in a send or while a missing part is sent again, it returns \<^verbatim>\<open>None\<close>. A
  blocking \<^verbatim>\<open>download_media\<close> whose job the worker ends as cancelled returns \<^verbatim>\<open>None\<close>
  where it would have returned the worker's result, and raises nothing more.
\<close>

theorem cancellation_returns_None:
  "(\<forall>up v thumb fuel. fst (send_video_note up v thumb fuel) \<noteq> Some (Inl StopTransmission))
   \<and> (\<forall>up v thumb fuel calls.
        send_video_note_body up v thumb fuel = (Some (Inl StopTransmission), calls)
        \<longrightarrow> send_video_note up v thumb fuel = (Some (Inr None), calls))
   \<and> (\<forall>up v thumb fuel calls0.
        upload_phase up v thumb = (Inl StopTransmission, calls0)
        \<longrightarrow> send_video_note up v thumb fuel = (Some (Inr None), calls0))
   \<and> (\<forall>up v thumb fuel file calls0.
        upload_phase up v thumb = (Inr file, calls0) \<and> send up 0 = Inl StopTransmission
        \<longrightarrow> send_video_note up v thumb (Suc fuel) = (Some (Inr None), calls0 @ [Send]))
   \<and> (\<forall>up v thumb fuel fid calls0 i.
        upload_phase up v thumb = (Inr (Some fid), calls0)
        \<and> send up 0 = Inl (FilePartMissing i) \<and> save_part up 0 i = Some StopTransmission
        \<longrightarrow> send_video_note up v thumb (Suc fuel) =
              (Some (Inr None), calls0 @ [Send, SaveFile v (Some fid) i]))
   \<and> (\<forall>self message fn.
        download_media (self\<lparr>worker := \<lambda>j. worker_result Cancelled\<rparr>) message fn True =
          (case download_media self message fn True of
             Inl e \<Rightarrow> Inl e
           | Inr (j, r) \<Rightarrow> Inr (j, None)))"
proof (intro conjI allI impI)
  fix up v thumb fuel
  show "fst (send_video_note up v thumb fuel) \<noteq> Some (Inl StopTransmission)"
    by (rule send_video_note_never_StopTransmission)
next
  fix up v thumb fuel calls
  assume "send_video_note_body up v thumb fuel = (Some (Inl StopTransmission), calls)"
  then show "send_video_note up v thumb fuel = (Some (Inr None), calls)"
    by (simp add: send_video_note_def)
next
  fix up v thumb fuel calls0
  assume "upload_phase up v thumb = (Inl StopTransmission, calls0)"
  then show "send_video_note up v thumb fuel = (Some (Inr None), calls0)"
    by (simp add: send_video_note_def send_video_note_body_def)
next
  fix up v thumb fuel fl calls0
  assume h: "upload_phase up v thumb = (Inr fl, calls0) \<and> send up 0 = Inl StopTransmission"
  then have "send_loop up v fl (Suc fuel) 0 calls0 = (Some (Inl StopTransmission), calls0 @ [Send])"
    using send_loop_raises [of up 0 StopTransmission] by simp
  with h show "send_video_note up v thumb (Suc fuel) = (Some (Inr None), calls0 @ [Send])"
    by (simp add: send_video_note_def send_video_note_body_def)
next
  fix up v thumb fuel fid calls0 i
  assume h: "upload_phase up v thumb = (Inr (Some fid), calls0)
        \<and> send up 0 = Inl (FilePartMissing i) \<and> save_part up 0 i = Some StopTransmission"
  then have "send_loop up v (Some fid) (Suc fuel) 0 calls0 =
      (Some (Inl StopTransmission), calls0 @ [Send, SaveFile v (Some fid) i])"
    using send_loop_part_raises [of up 0 i StopTransmission] by simp
  with h show "send_video_note up v thumb (Suc fuel) =
              (Some (Inr None), calls0 @ [Send, SaveFile v (Some fid) i])"
    by (simp add: send_video_note_def send_video_note_body_def)
next
  fix self message fn
  show "download_media (self\<lparr>worker := \<lambda>j. worker_result Cancelled\<rparr>) message fn True =
          (case download_media self message fn True of
             Inl e \<Rightarrow> Inl e
           | Inr (j, r) \<Rightarrow> Inr (j, None))"
    by (rule download_media_cancelled)
qed

theorem cancellation_returns_None_witness:
  "send_video_note uploader_cancelled ''note.mp4'' None (Suc 0) =
     (Some (Inr None), [SaveFile ''note.mp4'' None 0, Send, SaveFile ''note.mp4'' (Some 77) 3])"
proof -
  have a: "upload_phase uploader_cancelled ''note.mp4'' None =
             (Inr (Some 77), [SaveFile ''note.mp4'' None 0])
        \<and> send uploader_cancelled 0 = Inl (FilePartMissing 3)
        \<and> save_part uploader_cancelled 0 3 = Some StopTransmission"
    by (simp add: upload_phase_def uploader_cancelled_def uploader_example_def)
  from cancellation_returns_None
  have "upload_phase uploader_cancelled ''note.mp4'' None =
             (Inr (Some 77), [SaveFile ''note.mp4'' None 0])
        \<and> send uploader_cancelled 0 = Inl (FilePartMissing 3)
        \<and> save_part uploader_cancelled 0 3 = Some StopTransmission
      \<longrightarrow> send_video_note uploader_cancelled ''note.mp4'' None (Suc 0) =
              (Some (Inr None),
               [SaveFile ''note.mp4'' None 0] @ [Send, SaveFile ''note.mp4'' (Some 77) 3])"
    by blast
  with a show ?thesis by simp
qed

section \<open>File name and directory of a download\<close>

lemma demo_named:
  "download_media demo_client (Media media_named) DEFAULT_DOWNLOAD_DIR True =
     Inr (\<lparr>j_data = data_named, j_directory = ''/app/downloads'', j_file_name = ''a.pdf'',
           j_file_reference = []\<rparr>, Some ''/app/downloads/a.pdf'')"
  by code_simp

lemma demo_dated_zero:
  "download_media demo_client (Media media_dated_zero) DEFAULT_DOWNLOAD_DIR True =
     Inr (job_dated_zero, Some ''/app/downloads/document_now_42.pdf'')"
  by code_simp

lemma decode_file_id_Inr:
  assumes "decode_file_id udecode data0 s = Inr d"
  shows "file_name d = file_name data0 \<and> mime_type d = mime_type data0
       \<and> date d = date data0
       \<and> (\<exists>mt. media_type d = Some mt \<and> mt \<in> {0, 1, 2, 3, 4, 5, 8, 9, 10, 13, 14})"
proof -
  from assms obtain blob where u: "udecode s = Inr blob"
    by (cases "udecode s") (simp_all add: decode_file_id_def)
  note d = decode_file_id_framed [where udecode = udecode and s = s, OF u]
  from assms d obtain b bs where blob: "blob = b # bs"
    by (cases blob) (simp_all add: parse_decoded_def)
  consider "uint b = 1" | "uint b = 0 \<or> uint b = 2 \<or> uint b = 14"
    | "uint b \<in> {3, 4, 5, 8, 9, 10, 13}"
    | "uint b \<notin> {0, 1, 2, 3, 4, 5, 8, 9, 10, 13, 14}"
    by auto
  then show ?thesis
  proof cases
    case 1
    with assms show ?thesis
      by (auto simp add: d blob parse_photo_like split: if_splits)
  next
    case 2
    from assms parse_with_thumb [OF 2, of data0 s bs] 2 show ?thesis
      by (auto simp add: d blob split: if_splits)
  next
    case 3
    from assms parse_plain [OF 3, of data0 s bs] 3 show ?thesis
      by (auto simp add: d blob split: if_splits)
  next
    case 4
    from assms parse_unknown [OF 4, of data0 s bs] show ?thesis
      by (simp add: d blob)
  qed
qed

lemma download_media_Inr:
  assumes "download_media self message fn block = Inr (j, r)"
  shows "\<exists>data0 s fr d. decode_file_id (utils_decode self) data0 s = Inr d
           \<and> enqueue_download self d fr fn block = Inr (j, r)"
  using assms
  by (auto simp add: download_media_def Let_def
        split: dl_message.splits option.splits sum.splits prod.splits)

lemma enqueue_download_Inr:
  assumes "enqueue_download self d fr fn block = Inr (j, r)"
  shows "j_data j = d
    \<and> (\<exists>mt label. media_type d = Some mt \<and> MEDIA_TYPE_ID self mt = Some label
          \<and> j_file_name j =
              (if snd (split_file_name d fn) = [] then synthesized_name self d label
               else snd (split_file_name d fn)))
    \<and> j_directory j =
        (if \<not> os_path_isabs (snd (split_file_name d fn))
         then path_join self (PARENT_DIR self)
                (if fst (os_path_split fn) \<noteq> [] then fst (os_path_split fn)
                 else DEFAULT_DOWNLOAD_DIR)
         else fst (os_path_split fn))"
  using assms
  by (auto simp add: enqueue_download_def split_file_name_def Let_def
        split: prod.splits option.splits if_splits)

lemma split_head_empty_iff: "fst (os_path_split p) = [] \<longleftrightarrow> CHR ''/'' \<notin> set p"
proof -
  let ?head = "rev (dropWhile (\<lambda>c. \<not> is_sep c) (rev p))"
  have h: "?head = [] \<longleftrightarrow> CHR ''/'' \<notin> set p"
    by (auto simp add: dropWhile_eq_Nil_conv is_sep_def)
  have "rev (dropWhile is_sep (rev ?head)) \<noteq> []" if "\<not> list_all is_sep ?head"
    using that by (simp add: dropWhile_eq_Nil_conv list_all_iff del: rev_rev_ident)
  with h show ?thesis
    by (auto simp add: os_path_split_def Let_def)
qed

text \<open>
  C7, as stated, fails: with no file name from the caller, a media object that carries a
  file name is saved under that name, and no name is synthesized; and a declared date of 0
  is formatted as the current time.
\<close>

theorem named_media_keeps_its_name:
  "snd (os_path_split DEFAULT_DOWNLOAD_DIR) = []
   \<and> download_media demo_client (Media media_named) DEFAULT_DOWNLOAD_DIR True =
       Inr (\<lparr>j_data = data_named, j_directory = ''/app/downloads'', j_file_name = ''a.pdf'',
             j_file_reference = []\<rparr>, Some ''/app/downloads/a.pdf'')
   \<and> date (j_data job_dated_zero) = Some 0
   \<and> download_media demo_client (Media media_dated_zero) DEFAULT_DOWNLOAD_DIR True =
       Inr (job_dated_zero, Some ''/app/downloads/document_now_42.pdf'')
   \<and> j_file_name job_dated_zero = ''document_now_42.pdf''"
proof -
  have "snd (os_path_split DEFAULT_DOWNLOAD_DIR) = []" by code_simp
  moreover have "date (j_data job_dated_zero) = Some 0"
    by (simp add: job_dated_zero_def)
  moreover have "j_file_name job_dated_zero = ''document_now_42.pdf''"
    by (simp add: job_dated_zero_def)
  ultimately show ?thesis using demo_named demo_dated_zero by simp
qed

text \<open>
  C7, amended. For every download request with no file name from the caller and none
  carried by the media object, the name is the label of the media type, the timestamp of
  the declared date (of the current time when the date is absent or 0), the random id and
  an extension, joined as \<^verbatim>\<open>label_timestamp_id\<close> and the extension; the media types 0, 1,
  2 and 14 get \<^verbatim>\<open>.jpg\<close> whatever the MIME type, and every other type the guessed
  extension, or its own default when there is no guess.
\<close>

theorem synthesized_file_name:
  assumes "download_media self message file_name_arg block = Inr (j, r)"
    and "snd (os_path_split file_name_arg) = []"
    and "file_name (j_data j) = None \<or> file_name (j_data j) = Some []"
  shows "\<exists>mt label ext.
           media_type (j_data j) = Some mt \<and> MEDIA_TYPE_ID self mt = Some label
         \<and> j_file_name j =
             label @ ''_'' @ strftime self (date_or_now (date (j_data j))) @ ''_'' @
             str_int (rnd_id self) @ ext
         \<and> mt \<in> {0, 1, 2, 3, 4, 5, 8, 9, 10, 13, 14}
         \<and> (mt \<in> {0, 1, 2, 14} \<longrightarrow> ext = ''.jpg'')
         \<and> (mt = 3 \<longrightarrow>
              ext = or_default (guess_extension self (mime_type (j_data j))) ''.ogg'')
         \<and> (mt \<in> {4, 10, 13} \<longrightarrow>
              ext = or_default (guess_extension self (mime_type (j_data j))) ''.mp4'')
         \<and> (mt = 5 \<longrightarrow>
              ext = or_default (guess_extension self (mime_type (j_data j))) ''.zip'')
         \<and> (mt = 8 \<longrightarrow>
              ext = or_default (guess_extension self (mime_type (j_data j))) ''.webp'')
         \<and> (mt = 9 \<longrightarrow>
              ext = or_default (guess_extension self (mime_type (j_data j))) ''.mp3'')"
proof -
  from download_media_Inr [OF assms(1)] obtain data0 s fr d where
    dec: "decode_file_id (utils_decode self) data0 s = Inr d"
    and enq: "enqueue_download self d fr file_name_arg block = Inr (j, r)"
    by blast
  from enqueue_download_Inr [OF enq] obtain mt label where
    jd: "j_data j = d" and mt: "media_type d = Some mt"
    and label: "MEDIA_TYPE_ID self mt = Some label"
    and name: "j_file_name j =
              (if snd (split_file_name d file_name_arg) = [] then synthesized_name self d label
               else snd (split_file_name d file_name_arg))"
    by blast
  from decode_file_id_Inr [OF dec] mt
  have known: "mt \<in> {0, 1, 2, 3, 4, 5, 8, 9, 10, 13, 14}" by auto
  from assms(2,3) jd have "snd (split_file_name d file_name_arg) = []"
    by (auto simp add: split_file_name_def split: prod.splits)
  with name have n: "j_file_name j = synthesized_name self d label" by simp
  let ?ext = "extension_of (Some mt) (guess_extension self (mime_type d))"
  have "j_file_name j =
             label @ ''_'' @ strftime self (date_or_now (date d)) @ ''_'' @
             str_int (rnd_id self) @ ?ext"
    using n mt by (simp add: synthesized_name_def)
  moreover from known have
    "(mt \<in> {0, 1, 2, 14} \<longrightarrow> ?ext = ''.jpg'')
     \<and> (mt = 3 \<longrightarrow> ?ext = or_default (guess_extension self (mime_type d)) ''.ogg'')
     \<and> (mt \<in> {4, 10, 13} \<longrightarrow> ?ext = or_default (guess_extension self (mime_type d)) ''.mp4'')
     \<and> (mt = 5 \<longrightarrow> ?ext = or_default (guess_extension self (mime_type d)) ''.zip'')
     \<and> (mt = 8 \<longrightarrow> ?ext = or_default (guess_extension self (mime_type d)) ''.webp'')
     \<and> (mt = 9 \<longrightarrow> ?ext = or_default (guess_extension self (mime_type d)) ''.mp3'')"
    by (auto simp add: extension_of_def)
  ultimately show ?thesis using mt label known jd by blast
qed

theorem synthesized_file_name_witness:
  "\<exists>ext. j_file_name job_dated_zero = ''document'' @ ''_'' @ ''now'' @ ''_'' @ ''42'' @ ext
      \<and> ext = ''.pdf''"
proof -
  have a: "download_media demo_client (Media media_dated_zero) DEFAULT_DOWNLOAD_DIR True =
     Inr (job_dated_zero, Some ''/app/downloads/document_now_42.pdf'')"
    by (rule demo_dated_zero)
  have b: "snd (os_path_split DEFAULT_DOWNLOAD_DIR) = []" by code_simp
  have c: "file_name (j_data job_dated_zero) = None
         \<or> file_name (j_data job_dated_zero) = Some []"
    by (simp add: job_dated_zero_def)
  from synthesized_file_name [OF a b c] obtain mt label ext where
    "media_type (j_data job_dated_zero) = Some mt"
    "MEDIA_TYPE_ID demo_client mt = Some label"
    "j_file_name job_dated_zero =
             label @ ''_'' @ strftime demo_client (date_or_now (date (j_data job_dated_zero)))
             @ ''_'' @ str_int (rnd_id demo_client) @ ext"
    "mt = 5 \<longrightarrow>
       ext = or_default (guess_extension demo_client (mime_type (j_data job_dated_zero))) ''.zip''"
    by blast
  moreover have "media_type (j_data job_dated_zero) = Some 5"
    by (simp add: job_dated_zero_def data_named_def)
  moreover have "MEDIA_TYPE_ID demo_client 5 = Some ''document''"
    by (simp add: demo_client_def demo_media_type_id_def)
  moreover have "strftime demo_client (date_or_now (date (j_data job_dated_zero))) = ''now''"
    by (simp add: demo_client_def job_dated_zero_def date_or_now_def)
  moreover have "str_int (rnd_id demo_client) = ''42''" by code_simp
  moreover have
    "or_default (guess_extension demo_client (mime_type (j_data job_dated_zero))) ''.zip'' = ''.pdf''"
    by (simp add: demo_client_def job_dated_zero_def data_named_def demo_guess_extension_def
          or_default_def)
  ultimately show ?thesis by auto
qed

text \<open>
  C9. When the file name of a download, after line 188, is not absolute, the directory of
  the job is the client's parent directory joined with \<^verbatim>\<open>"downloads/"\<close> if the caller's
  path has no directory component (no separator), and joined with the directory
  component of the caller's path otherwise.
\<close>

theorem relative_directory_resolution:
  assumes "download_media self message file_name_arg block = Inr (j, r)"
    and "\<not> os_path_isabs (snd (split_file_name (j_data j) file_name_arg))"
  shows "j_directory j =
           path_join self (PARENT_DIR self)
             (if CHR ''/'' \<in> set file_name_arg then fst (os_path_split file_name_arg)
              else DEFAULT_DOWNLOAD_DIR)
       \<and> DEFAULT_DOWNLOAD_DIR = ''downloads/''
       \<and> (CHR ''/'' \<in> set file_name_arg \<longrightarrow> fst (os_path_split file_name_arg) \<noteq> [])"
proof -
  from download_media_Inr [OF assms(1)] obtain data0 s fr d where
    enq: "enqueue_download self d fr file_name_arg block = Inr (j, r)"
    by blast
  from enqueue_download_Inr [OF enq] assms(2)
  have "j_directory j =
          path_join self (PARENT_DIR self)
            (if fst (os_path_split file_name_arg) \<noteq> [] then fst (os_path_split file_name_arg)
             else DEFAULT_DOWNLOAD_DIR)"
    by auto
  then show ?thesis
    by (simp add: split_head_empty_iff DEFAULT_DOWNLOAD_DIR_def)
qed

theorem relative_directory_resolution_witness:
  "j_directory job_clip = path_join demo_client (PARENT_DIR demo_client) ''videos''
   \<and> j_directory (job_clip\<lparr>j_directory := ''/app/downloads/''\<rparr>) =
       path_join demo_client (PARENT_DIR demo_client) ''downloads/''"
proof -
  have a: "download_media demo_client (Media media_dated_zero) ''videos/clip'' True =
     Inr (job_clip, Some ''/app/videos/clip'')"
    by code_simp
  have b: "\<not> os_path_isabs (snd (split_file_name (j_data job_clip) ''videos/clip''))"
    by code_simp
  have c: "fst (os_path_split ''videos/clip'') = ''videos''" by code_simp
  have a': "download_media demo_client (Media media_dated_zero) ''clip'' True =
     Inr (job_clip\<lparr>j_directory := ''/app/downloads/''\<rparr>, Some ''/app/downloads//clip'')"
    by code_simp
  have b': "\<not> os_path_isabs (snd (split_file_name
                 (j_data (job_clip\<lparr>j_directory := ''/app/downloads/''\<rparr>)) ''clip''))"
    by code_simp
  from relative_directory_resolution [OF a b] c
  have "j_directory job_clip = path_join demo_client (PARENT_DIR demo_client) ''videos''"
    by simp
  moreover
  from relative_directory_resolution [OF a' b']
  have "j_directory (job_clip\<lparr>j_directory := ''/app/downloads/''\<rparr>) =
          path_join demo_client (PARENT_DIR demo_client) ''downloads/''"
    by (simp add: DEFAULT_DOWNLOAD_DIR_def)
  ultimately show ?thesis by simp
qed

end
